theory Spec2Isabelle
  imports Main
begin

section \<open>xhs-agent: a shallow embedding of \<open>src/index.ts\<close>\<close>

text \<open>
  The program attaches to a Chrome instance over the remote-debugging protocol, turns a
  list of image references into local files, drives the publish page of the platform
  and prints one JSON result on standard output.

  Conventions of the embedding:
  \<^item> a JavaScript string is a \<open>string\<close> holding its UTF-8 bytes; the Chinese literals of
    the source are written byte by byte;
  \<^item> a thrown \<open>Error\<close> is the value \<open>Error message\<close>; a function that can throw returns
    \<open>(error + 'a) \<times> world\<close>, the world being the one reached when the exception left
    the function (effects made before a throw stay made);
  \<^item> everything the program observes but does not decide (the file system it starts from,
    the clock, the HTTP server, the liveness endpoint, the page) is a field of the
    record \<open>env\<close>;
  \<^item> \<open>log\<close> writes to standard error only; standard error is not modelled;
  \<^item> of the calls into Playwright and Node, those whose failure the program handles or
    reports are modelled with their failure (the download, the liveness probe, the
    navigation, the wait for the file input, the visibility probes inside \<open>try\<close> blocks);
    timed waits, clicks on a control just seen, \<open>fill\<close>, \<open>connectOverCDP\<close> after a
    successful probe, file writes and \<open>browser.close()\<close> are taken to succeed;
  \<^item> the actions performed on the browser are recorded, in order, in the \<open>trace\<close> of the
    world.
\<close>

subsection \<open>Strings\<close>

definition starts_with :: "string \<Rightarrow> string \<Rightarrow> bool" where
  \<comment> \<open>\<open>s.startsWith(p)\<close>\<close>
  "starts_with p s = (take (length p) s = p)"

definition digit_char :: "nat \<Rightarrow> char" where
  \<comment> \<open>used below 10 only\<close>
  "digit_char d = ''0123456789'' ! d"

fun show_nat :: "nat \<Rightarrow> string" where
  \<comment> \<open>a non-negative integer inside a template literal: its decimal digits\<close>
  "show_nat n = (if n < 10 then [digit_char n] else show_nat (n div 10) @ [digit_char (n mod 10)])"

declare show_nat.simps [simp del]

definition is_letter :: "char \<Rightarrow> bool" where
  \<comment> \<open>the character class \<open>[a-zA-Z]\<close>\<close>
  "is_letter c = (let n = (of_char c :: nat) in (65 \<le> n \<and> n \<le> 90) \<or> (97 \<le> n \<and> n \<le> 122))"

fun has_line_terminator :: "string \<Rightarrow> bool" where
  \<comment> \<open>the characters that \<open>.\<close> does not match: LF, CR, U+2028 and U+2029 (in UTF-8)\<close>
  "has_line_terminator [] = False"
| "has_line_terminator (c # cs) =
     (c = CHR 0x0A \<or> c = CHR 0x0D
      \<or> (c = CHR 0xE2 \<and> (starts_with [CHR 0x80, CHR 0xA8] cs \<or> starts_with [CHR 0x80, CHR 0xA9] cs))
      \<or> has_line_terminator cs)"

definition match_data_image :: "string \<Rightarrow> (string \<times> string) option" where
  \<comment> \<open>\<open>sourcePath.match(/^data:image\/([a-zA-Z]+);base64,(.+)$/)\<close>: the two groups\<close>
  "match_data_image s =
     (if \<not> starts_with ''data:image/'' s then None
      else let r = drop 11 s;
               sub = takeWhile is_letter r;
               r' = dropWhile is_letter r
           in if sub = [] \<or> \<not> starts_with '';base64,'' r' then None
              else let payload = drop 8 r'
                   in if payload = [] \<or> has_line_terminator payload then None
                      else Some (sub, payload))"

subsection \<open>JSON values written to standard output\<close>

datatype json = JString string | JObject "(string \<times> json) list"

definition stringify :: "(string \<times> json option) list \<Rightarrow> json" where
  \<comment> \<open>\<open>JSON.stringify\<close> of an object literal: a property whose value is \<open>undefined\<close> is left out\<close>
  "stringify props = JObject (concat (map (\<lambda>(k, v). case v of None \<Rightarrow> [] | Some j \<Rightarrow> [(k, j)]) props))"

subsection \<open>The world and its environment\<close>

datatype error = Error string

fun message :: "error \<Rightarrow> string" where
  "message (Error m) = m"

datatype blob = Directory | Raw string | FromBase64 string
  \<comment> \<open>\<open>FromBase64 p\<close> is the buffer \<open>Buffer.from(p, 'base64')\<close>\<close>

datatype locator = ByRole string string | ByText string | ByCss string
  \<comment> \<open>\<open>page.getByRole(role, { name, exact: true })\<close>, \<open>page.getByText(text, { exact: true })\<close>,
      \<open>page.locator(selector)\<close>\<close>

datatype action =
    Spawn string "string list"
  | ConnectOverCDP string
  | Goto string
  | DispatchClick locator
  | WaitForTimeout nat
  | SetInputFiles locator "string list"
  | Fill locator string
  | Press string
  | TypeText string
  | Click locator
  | BrowserClose

text \<open>
  The state a run changes: the file system, the number of liveness probes made so far, the
  actions performed on the browser, and the lines written to standard output.
\<close>

record world =
  files :: "string \<rightharpoonup> blob"
  probes :: nat
  trace :: "action list"
  stdout :: "json list"

datatype http_outcome = Response nat string string | TransportError string
  \<comment> \<open>\<open>Response statusCode statusMessage body\<close>, or the request's \<open>error\<close> event\<close>

record browser_context =
  pages :: "nat list"
  viewport :: "(nat \<times> nat) option"

record browser =
  contexts :: "browser_context list"

datatype signal = TextSuccess | TextNoteSuccess | UrlChange

record PublishConfig =
  imagePaths :: "string list option"
  imagePath :: "string option"
  title :: string
  content :: string
  taskId :: "string option"

text \<open>
  What the page answers during one pass of the retry loop: whether each of the three publish
  controls is visible when first looked for, which of the transient phrases is visible after
  the click, whether the two main controls are visible again after the cool-down, which
  signal wins the success race (\<open>None\<close>: the race rejects, no signal came within its window),
  and which of the alternate success phrases and of the platform error phrases are visible
  afterwards.
\<close>

record attempt =
  main_visible :: bool
  fallback_visible :: bool
  note_visible :: bool
  popup_visible :: "string \<Rightarrow> bool"
  main_visible_again :: bool
  fallback_visible_again :: bool
  race :: "signal option"
  alt_success_visible :: "string \<Rightarrow> bool"
  error_visible :: "string \<Rightarrow> bool"

text \<open>
  The environment of a run: \<open>os.homedir()\<close>, \<open>os.tmpdir()\<close>, whether \<open>process.platform\<close> is
  \<open>win32\<close>; the value \<open>Date.now()\<close> has while image \<open>i\<close> is processed; what the server does
  with a request; the answer of the \<open>k\<close>-th liveness probe; the browser found at the
  endpoint; the message of the error thrown by the navigation, if it throws; the time in
  milliseconds after the navigation at which the page is on the publish URL (\<open>None\<close>: never);
  whether the upload tab is visible; the message of the error thrown while waiting for the
  file input, if it throws; the number of elements matching \<open>#post-textarea\<close>; and the
  answers of the page in attempt \<open>n\<close> of the retry loop.
\<close>

record env =
  homedir :: string
  tmpdir :: string
  win32 :: bool
  date_now :: "nat \<Rightarrow> nat"
  https_get :: "string \<Rightarrow> http_outcome"
  cdp_alive :: "nat \<Rightarrow> bool"
  remote_browser :: browser
  goto_error :: "string option"
  login_arrival :: "nat option"
  image_tab_visible :: bool
  file_input_error :: "string option"
  content_area_count :: nat
  attempts :: "nat \<Rightarrow> attempt"

definition path_join :: "string \<Rightarrow> string \<Rightarrow> string" where
  \<comment> \<open>\<open>path.join(a, b)\<close> for two segments that need no normalisation (POSIX separator)\<close>
  "path_join a b = a @ ''/'' @ b"

definition existsSync :: "world \<Rightarrow> string \<Rightarrow> bool" where
  "existsSync w p = (files w p \<noteq> None)"

definition mkdir_if_missing :: "string \<Rightarrow> world \<Rightarrow> world" where
  \<comment> \<open>\<open>if (!fs.existsSync(d)) fs.mkdirSync(d, { recursive: true })\<close>\<close>
  "mkdir_if_missing d w = (if existsSync w d then w else w\<lparr>files := (files w)(d \<mapsto> Directory)\<rparr>)"

definition act :: "action \<Rightarrow> world \<Rightarrow> world" where
  "act a w = w\<lparr>trace := trace w @ [a]\<rparr>"

definition console_log :: "json \<Rightarrow> world \<Rightarrow> world" where
  "console_log j w = w\<lparr>stdout := stdout w @ [j]\<rparr>"

subsection \<open>Image ingestion\<close>

definition downloadImage :: "env \<Rightarrow> string \<Rightarrow> string \<Rightarrow> world \<Rightarrow> (error + unit) \<times> world" where
  \<comment> \<open>\<open>fs.createWriteStream(dest)\<close> creates the (empty) file; the response callback rejects
      on a status other than 200 and otherwise pipes the body into the file; only the
      request's \<open>error\<close> handler unlinks \<open>dest\<close>\<close>
  "downloadImage e url dest w =
     (let w1 = w\<lparr>files := (files w)(dest \<mapsto> Raw [])\<rparr>
      in case https_get e url of
           Response code msg body \<Rightarrow>
             if code \<noteq> 200
             then (Inl (Error (''Failed to download image: '' @ show_nat code @ '' '' @ msg)), w1)
             else (Inr (), w1\<lparr>files := (files w1)(dest \<mapsto> Raw body)\<rparr>)
         | TransportError m \<Rightarrow>
             (Inl (Error m), w1\<lparr>files := (files w1)(dest := None)\<rparr>))"

definition resolve_image :: "env \<Rightarrow> string \<Rightarrow> nat \<Rightarrow> string \<Rightarrow> world \<Rightarrow> (error + string) \<times> world" where
  \<comment> \<open>the body of the ingestion loop for index \<open>i\<close>: the value pushed on \<open>actualImagePaths\<close>\<close>
  "resolve_image e tmpDir i sourcePath w =
     (let (r, w') =
        (if starts_with ''http'' sourcePath then
           let actualPath = path_join tmpDir (''publish_'' @ show_nat (date_now e i) @ ''_'' @ show_nat i @ ''.png'')
           in case downloadImage e sourcePath actualPath w of
                (Inl err, w1) \<Rightarrow>
                  (Inl (Error (''Failed to download image '' @ show_nat (i + 1) @ '': '' @ message err)), w1)
              | (Inr _, w1) \<Rightarrow> (Inr actualPath, w1)
         else if starts_with ''data:image'' sourcePath then
           case match_data_image sourcePath of
             None \<Rightarrow>
               (Inl (Error (''Failed to process Base64 image '' @ show_nat (i + 1) @ '': ''
                            @ ''Invalid Base64 image format'')), w)
           | Some (sub, base64Data) \<Rightarrow>
               let ext = (if sub = ''jpeg'' then ''jpg'' else sub);
                   actualPath = path_join tmpDir
                     (''publish_base64_'' @ show_nat (date_now e i) @ ''_'' @ show_nat i @ ''.'' @ ext)
               in (Inr actualPath, w\<lparr>files := (files w)(actualPath \<mapsto> FromBase64 base64Data)\<rparr>)
         else (Inr sourcePath, w))
      in case r of
           Inl err \<Rightarrow> (Inl err, w')
         | Inr actualPath \<Rightarrow>
             if \<not> existsSync w' actualPath
             then (Inl (Error (''Image file not found: '' @ actualPath)), w')
             else (Inr actualPath, w'))"

function process_images ::
  "env \<Rightarrow> string \<Rightarrow> string list \<Rightarrow> nat \<Rightarrow> string list \<Rightarrow> world \<Rightarrow> (error + string list) \<times> world" where
  \<comment> \<open>\<open>for (let i = 0; i < sourceImagePaths.length; i++) { ...; actualImagePaths.push(actualPath) }\<close>\<close>
  "process_images e tmpDir srcs i acc w =
     (if i < length srcs then
        (case resolve_image e tmpDir i (srcs ! i) w of
           (Inl err, w') \<Rightarrow> (Inl err, w')
         | (Inr p, w') \<Rightarrow> process_images e tmpDir srcs (Suc i) (acc @ [p]) w')
      else (Inr acc, w))"
  by pat_completeness auto
termination
  by (relation "measure (\<lambda>(e, tmpDir, srcs, i, acc, w). length srcs - i)") auto

declare process_images.simps [simp del]

subsection \<open>Literals of the source\<close>

text \<open>The non-ASCII literals, as the UTF-8 bytes of the source file.\<close>

definition msg_published :: string where
  \<comment> \<open>the message of a confirmed publish\<close>
  "msg_published =
     [CHR 0xE5, CHR 0x8F, CHR 0x91, CHR 0xE5, CHR 0xB8, CHR 0x83, CHR 0xE6, CHR 0x88, CHR 0x90,
     CHR 0xE5, CHR 0x8A, CHR 0x9F, CHR 0xEF, CHR 0xBC, CHR 0x81]"

definition msg_check_manually :: string where
  \<comment> \<open>the message of an unconfirmed publish: the operation ran, check the creator backend\<close>
  "msg_check_manually =
     [CHR 0xE5, CHR 0x8F, CHR 0x91, CHR 0xE5, CHR 0xB8, CHR 0x83, CHR 0xE6, CHR 0x93, CHR 0x8D,
     CHR 0xE4, CHR 0xBD, CHR 0x9C, CHR 0xE5, CHR 0xB7, CHR 0xB2, CHR 0xE6, CHR 0x89, CHR 0xA7,
     CHR 0xE8, CHR 0xA1, CHR 0x8C, CHR 0xEF, CHR 0xBC, CHR 0x8C, CHR 0xE8, CHR 0xAF, CHR 0xB7,
     CHR 0xE6, CHR 0xA3, CHR 0x80, CHR 0xE6, CHR 0x9F, CHR 0xA5, CHR 0xE5, CHR 0xB0, CHR 0x8F,
     CHR 0xE7, CHR 0xBA, CHR 0xA2, CHR 0xE4, CHR 0xB9, CHR 0xA6, CHR 0xE5, CHR 0x90, CHR 0x8E,
     CHR 0xE5, CHR 0x8F, CHR 0xB0, CHR 0xE7, CHR 0xA1, CHR 0xAE, CHR 0xE8, CHR 0xAE, CHR 0xA4,
     CHR 0xE3, CHR 0x80, CHR 0x82]"

definition msg_chrome_missing :: string where
  "msg_chrome_missing =
     ''Chrome '' @ [CHR 0xE6, CHR 0x9C, CHR 0xAA, CHR 0xE6, CHR 0x89, CHR 0xBE, CHR 0xE5,
     CHR 0x88, CHR 0xB0, CHR 0xEF, CHR 0xBC, CHR 0x8C, CHR 0xE8, CHR 0xAF, CHR 0xB7, CHR 0xE5,
     CHR 0xAE, CHR 0x89, CHR 0xE8, CHR 0xA3, CHR 0x85] @ '' Google Chrome''"

definition msg_launch_timeout :: string where
  "msg_launch_timeout =
     ''Chrome '' @ [CHR 0xE5, CHR 0x90, CHR 0xAF, CHR 0xE5, CHR 0x8A, CHR 0xA8, CHR 0xE8,
     CHR 0xB6, CHR 0x85, CHR 0xE6, CHR 0x97, CHR 0xB6]"

definition msg_chrome_undetected :: string where
  "msg_chrome_undetected =
     [CHR 0xE6, CHR 0x9C, CHR 0xAA, CHR 0xE6, CHR 0xA3, CHR 0x80, CHR 0xE6, CHR 0xB5, CHR 0x8B,
     CHR 0xE5, CHR 0x88, CHR 0xB0] @ '' Chrome '' @ [CHR 0xE6, CHR 0xB5, CHR 0x8F, CHR 0xE8,
     CHR 0xA7, CHR 0x88, CHR 0xE5, CHR 0x99, CHR 0xA8, CHR 0xE3, CHR 0x80, CHR 0x82]"

definition hint_windows :: string where
  "hint_windows =
     [CHR 0xE8, CHR 0xAF, CHR 0xB7, CHR 0xE8, CHR 0xAE, CHR 0xBF, CHR 0xE9, CHR 0x97,
     CHR 0xAE] @ '' https://www.google.cn/chrome/ '' @ [CHR 0xE4, CHR 0xB8, CHR 0x8B, CHR 0xE8,
     CHR 0xBD, CHR 0xBD, CHR 0xE5, CHR 0xAE, CHR 0x89, CHR 0xE8, CHR 0xA3, CHR 0x85] @
     '' Chrome '' @ [CHR 0xE6, CHR 0xB5, CHR 0x8F, CHR 0xE8, CHR 0xA7, CHR 0x88, CHR 0xE5,
     CHR 0x99, CHR 0xA8]"

definition hint_other :: string where
  "hint_other =
     [CHR 0xE8, CHR 0xAF, CHR 0xB7, CHR 0xE8, CHR 0xAE, CHR 0xBF, CHR 0xE9, CHR 0x97,
     CHR 0xAE] @ '' https://www.google.cn/chrome/ '' @ [CHR 0xE4, CHR 0xB8, CHR 0x8B, CHR 0xE8,
     CHR 0xBD, CHR 0xBD, CHR 0xE5, CHR 0xAE, CHR 0x89, CHR 0xE8, CHR 0xA3, CHR 0x85] @
     '' Chrome '' @ [CHR 0xE6, CHR 0xB5, CHR 0x8F, CHR 0xE8, CHR 0xA7, CHR 0x88, CHR 0xE5,
     CHR 0x99, CHR 0xA8, CHR 0xEF, CHR 0xBC, CHR 0x8C, CHR 0xE6, CHR 0x88, CHR 0x96, CHR 0xE8,
     CHR 0xBF, CHR 0x90, CHR 0xE8, CHR 0xA1, CHR 0x8C] @ '': brew install --cask google-chrome''"

definition txt_upload_tab :: string where
  "txt_upload_tab =
     [CHR 0xE4, CHR 0xB8, CHR 0x8A, CHR 0xE4, CHR 0xBC, CHR 0xA0, CHR 0xE5, CHR 0x9B, CHR 0xBE,
     CHR 0xE6, CHR 0x96, CHR 0x87]"

definition txt_publish :: string where
  "txt_publish =
     [CHR 0xE5, CHR 0x8F, CHR 0x91, CHR 0xE5, CHR 0xB8, CHR 0x83]"

definition txt_publish_note :: string where
  "txt_publish_note =
     [CHR 0xE5, CHR 0x8F, CHR 0x91, CHR 0xE5, CHR 0xB8, CHR 0x83, CHR 0xE7, CHR 0xAC, CHR 0x94,
     CHR 0xE8, CHR 0xAE, CHR 0xB0]"

definition sel_file_input :: string where
  "sel_file_input =
     ''input[type='' @ [CHR 0x22] @ ''file'' @ [CHR 0x22] @ '']''"

definition sel_title_input :: string where
  "sel_title_input =
     ''input[placeholder*='' @ [CHR 0x22, CHR 0xE6, CHR 0xA0, CHR 0x87, CHR 0xE9, CHR 0xA2,
     CHR 0x98, CHR 0x22] @ '']''"

definition uploadPopupMessages :: "string list" where
  \<comment> \<open>the transient phrases scanned for after a click\<close>
  "uploadPopupMessages =
     [[CHR 0xE5, CHR 0x9B, CHR 0xBE, CHR 0xE7, CHR 0x89, CHR 0x87, CHR 0xE4, CHR 0xB8,
       CHR 0x8A, CHR 0xE4, CHR 0xBC, CHR 0xA0, CHR 0xE4, CHR 0xB8, CHR 0xAD],
      [CHR 0xE8, CHR 0xAF, CHR 0xB7, CHR 0xE7, CHR 0xA8, CHR 0x8D, CHR 0xE5, CHR 0x90,
       CHR 0x8E],
      [CHR 0xE6, CHR 0xAD, CHR 0xA3, CHR 0xE5, CHR 0x9C, CHR 0xA8, CHR 0xE5, CHR 0xA4,
       CHR 0x84, CHR 0xE7, CHR 0x90, CHR 0x86],
      [CHR 0xE4, CHR 0xB8, CHR 0x8A, CHR 0xE4, CHR 0xBC, CHR 0xA0, CHR 0xE4, CHR 0xB8,
       CHR 0xAD]]"

definition additionalSuccessTexts :: "string list" where
  \<comment> \<open>the success phrases scanned for after the race failed\<close>
  "additionalSuccessTexts =
     [[CHR 0xE5, CHR 0xB7, CHR 0xB2, CHR 0xE5, CHR 0x8F, CHR 0x91, CHR 0xE5, CHR 0xB8,
       CHR 0x83],
      [CHR 0xE6, CHR 0x88, CHR 0x90, CHR 0xE5, CHR 0x8A, CHR 0x9F],
      [CHR 0xE5, CHR 0x8F, CHR 0x91, CHR 0xE5, CHR 0xB8, CHR 0x83, CHR 0xE5, CHR 0xAE,
       CHR 0x8C, CHR 0xE6, CHR 0x88, CHR 0x90],
      [CHR 0xE7, CHR 0xAC, CHR 0x94, CHR 0xE8, CHR 0xAE, CHR 0xB0, CHR 0xE5, CHR 0xB7,
       CHR 0xB2, CHR 0xE5, CHR 0x8F, CHR 0x91, CHR 0xE5, CHR 0xB8, CHR 0x83]]"

definition errorMessages :: "string list" where
  \<comment> \<open>the platform error phrases scanned for when no success was seen\<close>
  "errorMessages =
     [[CHR 0xE5, CHR 0x8F, CHR 0x91, CHR 0xE5, CHR 0xB8, CHR 0x83, CHR 0xE5, CHR 0xA4,
       CHR 0xB1, CHR 0xE8, CHR 0xB4, CHR 0xA5],
      [CHR 0xE8, CHR 0xAF, CHR 0xB7, CHR 0xE7, CHR 0xA8, CHR 0x8D, CHR 0xE5, CHR 0x90,
       CHR 0x8E, CHR 0xE5, CHR 0x86, CHR 0x8D, CHR 0xE8, CHR 0xAF, CHR 0x95],
      [CHR 0xE7, CHR 0xBD, CHR 0x91, CHR 0xE7, CHR 0xBB, CHR 0x9C, CHR 0xE9, CHR 0x94,
       CHR 0x99, CHR 0xE8, CHR 0xAF, CHR 0xAF],
      [CHR 0xE8, CHR 0xAF, CHR 0xB7, CHR 0xE5, CHR 0x85, CHR 0x88, CHR 0xE7, CHR 0x99,
       CHR 0xBB, CHR 0xE5, CHR 0xBD, CHR 0x95],
      [CHR 0xE5, CHR 0x86, CHR 0x85, CHR 0xE5, CHR 0xAE, CHR 0xB9, CHR 0xE8, CHR 0xBF,
       CHR 0x9D, CHR 0xE8, CHR 0xA7, CHR 0x84],
      [CHR 0xE5, CHR 0xAE, CHR 0xA1, CHR 0xE6, CHR 0xA0, CHR 0xB8, CHR 0xE4, CHR 0xB8,
       CHR 0x8D, CHR 0xE9, CHR 0x80, CHR 0x9A, CHR 0xE8, CHR 0xBF, CHR 0x87]]"

definition CDP_ENDPOINT :: string where
  "CDP_ENDPOINT = ''http://127.0.0.1:9222''"

definition USER_DATA_DIR :: "env \<Rightarrow> string" where
  "USER_DATA_DIR e = path_join (path_join (homedir e) ''.auto-tauri'') ''browser-profile''"

definition CHROME_PATHS :: "env \<Rightarrow> string list" where
  "CHROME_PATHS e =
     [''/Applications/Google Chrome.app/Contents/MacOS/Google Chrome'',
      ''/Applications/Chromium.app/Contents/MacOS/Chromium'',
      path_join (homedir e) ''Applications/Google Chrome.app/Contents/MacOS/Google Chrome'',
      ''C:'' @ [CHR 0x5C] @ ''Program Files'' @ [CHR 0x5C] @ ''Google'' @ [CHR 0x5C] @
        ''Chrome'' @ [CHR 0x5C] @ ''Application'' @ [CHR 0x5C] @ ''chrome.exe'',
      ''C:'' @ [CHR 0x5C] @ ''Program Files (x86)'' @ [CHR 0x5C] @ ''Google'' @ [CHR 0x5C] @
        ''Chrome'' @ [CHR 0x5C] @ ''Application'' @ [CHR 0x5C] @ ''chrome.exe'',
      path_join (homedir e)
        (''AppData'' @ [CHR 0x5C] @ ''Local'' @ [CHR 0x5C] @ ''Google'' @ [CHR 0x5C] @
          ''Chrome'' @ [CHR 0x5C] @ ''Application'' @ [CHR 0x5C] @ ''chrome.exe'')]"

definition maxRetries :: nat where
  "maxRetries = 3"

definition publish_url :: string where
  "publish_url = ''https://creator.xiaohongshu.com/publish/publish''"

subsection \<open>Session manager\<close>

definition getChromePath :: "env \<Rightarrow> world \<Rightarrow> string option" where
  \<comment> \<open>the first of \<open>CHROME_PATHS\<close> that exists\<close>
  "getChromePath e w = find (existsSync w) (CHROME_PATHS e)"

definition isCDPAvailable :: "env \<Rightarrow> world \<Rightarrow> bool \<times> world" where
  \<comment> \<open>one query of \<open>/json/version\<close>: \<open>response.ok\<close>, or \<open>false\<close> when \<open>fetch\<close> throws\<close>
  "isCDPAvailable e w = (cdp_alive e (probes w), w\<lparr>probes := Suc (probes w)\<rparr>)"

function wait_for_cdp :: "env \<Rightarrow> nat \<Rightarrow> world \<Rightarrow> (error + unit) \<times> world" where
  \<comment> \<open>\<open>while (retries < maxRetries) { if (await isCDPAvailable()) return; await sleep(500); retries++ }\<close>
      followed by the throw, with \<open>maxRetries = 20\<close>\<close>
  "wait_for_cdp e retries w =
     (if retries < 20 then
        (let (ok, w') = isCDPAvailable e w
         in if ok then (Inr (), w') else wait_for_cdp e (Suc retries) w')
      else (Inl (Error msg_launch_timeout), w))"
  by pat_completeness auto
termination
  by (relation "measure (\<lambda>(e, retries, w). 20 - retries)") auto

declare wait_for_cdp.simps [simp del]

definition launchChrome :: "env \<Rightarrow> world \<Rightarrow> (error + unit) \<times> world" where
  "launchChrome e w =
     (case getChromePath e w of
        None \<Rightarrow> (Inl (Error msg_chrome_missing), w)
      | Some chromePath \<Rightarrow>
          let w1 = mkdir_if_missing (USER_DATA_DIR e) w;
              w2 = act (Spawn chromePath
                     [''--remote-debugging-port=9222'',
                      ''--user-data-dir='' @ USER_DATA_DIR e,
                      ''--no-first-run'',
                      ''--no-default-browser-check'']) w1
          in wait_for_cdp e 0 w2)"

definition connectCDP :: "env \<Rightarrow> world \<Rightarrow> (error + browser) \<times> world" where
  \<comment> \<open>\<open>chromium.connectOverCDP\<close> hands back the browser that answers at the endpoint\<close>
  "connectCDP e w =
     (let (alive, w1) = isCDPAvailable e w;
          (r, w2) = (if alive then (Inr (), w1) else launchChrome e w1)
      in case r of
           Inl err \<Rightarrow> (Inl err, w2)
         | Inr _ \<Rightarrow> (Inr (remote_browser e), act (ConnectOverCDP CDP_ENDPOINT) w2))"

definition fresh_page :: "browser \<Rightarrow> nat" where
  \<comment> \<open>the identity of a page made by \<open>newPage()\<close>: one that no context holds yet\<close>
  "fresh_page b = Suc (fold max (concat (map pages (contexts b))) 0)"

definition getOrCreatePage :: "browser \<Rightarrow> nat \<times> browser" where
  \<comment> \<open>the page returned, and the browser with whatever was created in it\<close>
  "getOrCreatePage b =
     (case contexts b of
        c # cs \<Rightarrow>
          (case pages c of
             p # ps \<Rightarrow> (p, b)
           | [] \<Rightarrow> (fresh_page b, b\<lparr>contexts := c\<lparr>pages := [fresh_page b]\<rparr> # cs\<rparr>))
      | [] \<Rightarrow>
          (fresh_page b,
           b\<lparr>contexts := [\<lparr>pages = [fresh_page b], viewport = Some (1280, 800)\<rparr>]\<rparr>))"

subsection \<open>Publish workflow\<close>

definition select_sources :: "PublishConfig \<Rightarrow> error + string list" where
  \<comment> \<open>\<open>imagePaths\<close> when it is a non-empty array, else a non-empty \<open>imagePath\<close>, else the throw\<close>
  "select_sources config =
     (case imagePaths config of
        Some (p # ps) \<Rightarrow> Inr (p # ps)
      | _ \<Rightarrow>
          (case imagePath config of
             Some (c # cs) \<Rightarrow> Inr [c # cs]
           | _ \<Rightarrow> Inl (Error
               ''Image path is required for XHS publish. Please provide imagePaths or imagePath.'')))"

definition on_publish_page :: "env \<Rightarrow> nat \<Rightarrow> bool" where
  \<comment> \<open>\<open>checkPublishPage()\<close>, \<open>t\<close> milliseconds after the navigation returned\<close>
  "on_publish_page e t = (case login_arrival e of None \<Rightarrow> False | Some a \<Rightarrow> a \<le> t)"

definition after_wait_for_url :: "env \<Rightarrow> nat \<Rightarrow> nat" where
  \<comment> \<open>the time at which \<open>page.waitForURL(..., { timeout: 5000 })\<close> settles when started at \<open>t\<close>:
      at the arrival on the publish page, or at the timeout\<close>
  "after_wait_for_url e t =
     (case login_arrival e of
        None \<Rightarrow> t + 5000
      | Some a \<Rightarrow> if t < a \<and> a \<le> t + 5000 then a else t + 5000)"

function await_login :: "env \<Rightarrow> nat \<Rightarrow> error + unit" where
  \<comment> \<open>\<open>while (!checkPublishPage()) { if (Date.now() - startTime > 120000) throw ...; waitForURL }\<close>\<close>
  "await_login e t =
     (if \<not> on_publish_page e t then
        (if t > 120000
         then Inl (Error ''Timeout waiting for login. Please reach the publish page manually.'')
         else await_login e (after_wait_for_url e t))
      else Inr ())"
  by pat_completeness auto
termination
  by (relation "measure (\<lambda>(e, t). 125001 - t)")
     (auto simp: after_wait_for_url_def split: option.splits)

declare await_login.simps [simp del]

definition waitTime :: "nat \<Rightarrow> int" where
  \<comment> \<open>\<open>Math.min(30 + (actualImagePaths.length - 1) * 5, 60)\<close>\<close>
  "waitTime n = min (30 + (int n - 1) * 5) 60"

definition upload_images :: "env \<Rightarrow> string list \<Rightarrow> world \<Rightarrow> (error + unit) \<times> world" where
  \<comment> \<open>wait for the file input, set all files at once, then the settling wait\<close>
  "upload_images e actualImagePaths w =
     (case file_input_error e of
        Some m \<Rightarrow> (Inl (Error m), w)
      | None \<Rightarrow>
          let w1 = act (SetInputFiles (ByCss sel_file_input) actualImagePaths) w
          in (Inr (), act (WaitForTimeout (nat (waitTime (length actualImagePaths) * 1000))) w1))"

definition fill_form :: "PublishConfig \<Rightarrow> env \<Rightarrow> world \<Rightarrow> world" where
  "fill_form config e w =
     (let w1 = act (Fill (ByCss sel_title_input) (title config)) w;
          combinedContent = title config @ [CHR 0x0A] @ content config
      in if content_area_count e > 0
         then act (Fill (ByCss ''#post-textarea'') combinedContent) w1
         else act (TypeText combinedContent) (act (Press ''Tab'') w1))"

definition prepare_page :: "PublishConfig \<Rightarrow> env \<Rightarrow> string list \<Rightarrow> world \<Rightarrow> (error + unit) \<times> world" where
  \<comment> \<open>from the navigation to the filled form\<close>
  "prepare_page config e actualImagePaths w =
     (let w1 = act (Goto publish_url) w
      in case goto_error e of
           Some m \<Rightarrow> (Inl (Error m), w1)
         | None \<Rightarrow>
             (case (if \<not> on_publish_page e 0 then await_login e 0 else Inr ()) of
                Inl err \<Rightarrow> (Inl err, w1)
              | Inr _ \<Rightarrow>
                  (let w2 = (if image_tab_visible e
                             then act (WaitForTimeout 2000) (act (DispatchClick (ByText txt_upload_tab)) w1)
                             else w1)
                   in (case upload_images e actualImagePaths w2 of
                         (Inl err, w3) \<Rightarrow> (Inl err, w3)
                       | (Inr _, w3) \<Rightarrow> (Inr (), fill_form config e w3)))))"

definition click_publish :: "attempt \<Rightarrow> world \<Rightarrow> (error + unit) \<times> world" where
  \<comment> \<open>the role button, else the exact text, else the alternate label, else the throw\<close>
  "click_publish a w =
     (if main_visible a then (Inr (), act (Click (ByRole ''button'' txt_publish)) w)
      else if fallback_visible a then (Inr (), act (Click (ByText txt_publish)) w)
      else if note_visible a then (Inr (), act (Click (ByText txt_publish_note)) w)
      else (Inl (Error ''Publish button not found''), w))"

fun popup_scan :: "attempt \<Rightarrow> string list \<Rightarrow> world \<Rightarrow> world" where
  \<comment> \<open>the first visible phrase: wait 3 s, click the control again if one is visible, stop\<close>
  "popup_scan a [] w = w"
| "popup_scan a (msg # rest) w =
     (if popup_visible a msg then
        (let w1 = act (WaitForTimeout 3000) w
         in if main_visible_again a then act (Click (ByRole ''button'' txt_publish)) w1
            else if fallback_visible_again a then act (Click (ByText txt_publish)) w1
            else w1)
      else popup_scan a rest w)"

fun scan_texts :: "(string \<Rightarrow> bool) \<Rightarrow> string list \<Rightarrow> bool" where
  \<comment> \<open>\<open>for (const t of texts) { try { if (await page.getByText(t).isVisible(...)) { found = true; break } } catch { } }\<close>;
      a probe that throws is caught and the scan goes on, as for a probe that answers \<open>false\<close>\<close>
  "scan_texts visible [] = False"
| "scan_texts visible (t # ts) = (if visible t then True else scan_texts visible ts)"

definition publish_attempt :: "env \<Rightarrow> nat \<Rightarrow> world \<Rightarrow> (error + bool) \<times> world" where
  \<comment> \<open>the body of the retry loop: the value of \<open>publishSuccess\<close> after attempt number \<open>n\<close>\<close>
  "publish_attempt e n w =
     (let a = attempts e n
      in case click_publish a w of
           (Inl err, w1) \<Rightarrow> (Inl err, w1)
         | (Inr _, w1) \<Rightarrow>
             (let w2 = popup_scan a uploadPopupMessages w1
              in (case race a of
                    Some result \<Rightarrow> (Inr True, w2)
                  | None \<Rightarrow>
                      (let publishSuccess = scan_texts (alt_success_visible a) additionalSuccessTexts
                       in if \<not> publishSuccess then
                            (let errorDetected = scan_texts (error_visible a) errorMessages
                             in if n < maxRetries
                                then (Inr publishSuccess, act (WaitForTimeout 3000) w2)
                                else (Inr publishSuccess, w2))
                          else (Inr publishSuccess, w2)))))"

function publish_loop :: "env \<Rightarrow> nat \<Rightarrow> bool \<Rightarrow> world \<Rightarrow> (error + bool) \<times> world" where
  \<comment> \<open>\<open>for (let attempt = 1; attempt <= maxRetries && !publishSuccess; attempt++)\<close>\<close>
  "publish_loop e n publishSuccess w =
     (if n \<le> maxRetries \<and> \<not> publishSuccess then
        (case publish_attempt e n w of
           (Inl err, w') \<Rightarrow> (Inl err, w')
         | (Inr ok, w') \<Rightarrow> publish_loop e (Suc n) ok w')
      else (Inr publishSuccess, w))"
  by pat_completeness auto
termination
  by (relation "measure (\<lambda>(e, n, publishSuccess, w). Suc maxRetries - n)") auto

declare publish_loop.simps [simp del]

definition workflow :: "PublishConfig \<Rightarrow> env \<Rightarrow> string list \<Rightarrow> world \<Rightarrow> (error + bool) \<times> world" where
  \<comment> \<open>the \<open>try\<close> block up to the decision on the outcome\<close>
  "workflow config e actualImagePaths w =
     (case prepare_page config e actualImagePaths w of
        (Inl err, w1) \<Rightarrow> (Inl err, w1)
      | (Inr _, w1) \<Rightarrow>
          (case publish_loop e 1 False w1 of
             (Inl err, w2) \<Rightarrow> (Inl err, w2)
           | (Inr publishSuccess, w2) \<Rightarrow> (Inr publishSuccess, act (WaitForTimeout 2000) w2)))"

definition outcome :: "PublishConfig \<Rightarrow> string \<Rightarrow> string \<Rightarrow> json" where
  \<comment> \<open>\<open>JSON.stringify({ taskId: config.taskId, status, data: { message } })\<close>\<close>
  "outcome config status msg =
     stringify [(''taskId'', map_option JString (taskId config)),
                (''status'', Some (JString status)),
                (''data'', Some (stringify [(''message'', Some (JString msg))]))]"

definition before_try :: "PublishConfig \<Rightarrow> env \<Rightarrow> world \<Rightarrow> (error + string list) \<times> world" where
  \<comment> \<open>\<open>runPublish\<close> up to its \<open>try\<close> block: the Chrome check, the choice of the sources, the
      ingestion, the connection and the page; an exception here leaves \<open>runPublish\<close>\<close>
  "before_try config e w =
     (case getChromePath e w of
        None \<Rightarrow>
          (Inl (Error (msg_chrome_undetected @ (if win32 e then hint_windows else hint_other))), w)
      | Some chromePath \<Rightarrow>
          (case select_sources config of
             Inl err \<Rightarrow> (Inl err, w)
           | Inr sourceImagePaths \<Rightarrow>
               (let tmpDir = path_join (tmpdir e) ''auto-tauri-xhs'';
                    w0 = mkdir_if_missing tmpDir w
                in (case process_images e tmpDir sourceImagePaths 0 [] w0 of
                      (Inl err, w1) \<Rightarrow> (Inl err, w1)
                    | (Inr actualImagePaths, w1) \<Rightarrow>
                        (case connectCDP e w1 of
                           (Inl err, w2) \<Rightarrow> (Inl err, w2)
                         | (Inr browser, w2) \<Rightarrow>
                             (let (page, browser') = getOrCreatePage browser
                              in (Inr actualImagePaths, w2)))))))"

definition runPublish :: "PublishConfig \<Rightarrow> env \<Rightarrow> world \<Rightarrow> (error + unit) \<times> world" where
  \<comment> \<open>\<open>Inl\<close>: the exception left \<open>runPublish\<close> (thrown before the \<open>try\<close> block);
      \<open>Inr\<close>: it returned, after the \<open>try\<close>, \<open>catch\<close> and \<open>finally\<close> blocks\<close>
  "runPublish config e w =
     (case before_try config e w of
        (Inl err, w2) \<Rightarrow> (Inl err, w2)
      | (Inr actualImagePaths, w2) \<Rightarrow>
          (let w4 = (case workflow config e actualImagePaths w2 of
                       (Inr publishSuccess, w3) \<Rightarrow>
                         if publishSuccess
                         then console_log (outcome config ''success'' msg_published) w3
                         else console_log (outcome config ''success'' msg_check_manually) w3
                     | (Inl err, w3) \<Rightarrow>
                         console_log (outcome config ''failed'' (message err)) w3)
           in (Inr (), act BrowserClose w4)))"

definition main_stdin :: "PublishConfig \<Rightarrow> env \<Rightarrow> world \<Rightarrow> nat \<times> world" where
  \<comment> \<open>\<open>main\<close> for a configuration parsed from a line of standard input: the exit code and the world\<close>
  "main_stdin config e w =
     (case runPublish config e w of
        (Inr _, w') \<Rightarrow> (0, w')
      | (Inl err, w') \<Rightarrow>
          (1, console_log (stringify [(''taskId'', map_option JString (taskId config)),
                                      (''status'', Some (JString ''failed'')),
                                      (''error'', Some (JString (message err)))]) w'))"

subsection \<open>Concrete configurations, environments and worlds\<close>

text \<open>Inputs on which the functions above are run: a host with Chrome installed and one local
  image, a page that confirms the first click, a page that never confirms, and a server that
  serves one image and answers 404 for every other URL.\<close>

definition chrome_mac :: string where
  "chrome_mac = ''/Applications/Google Chrome.app/Contents/MacOS/Google Chrome''"

definition host_world :: world where
  "host_world =
     \<lparr>files = [chrome_mac \<mapsto> Raw [], ''/Users/u/cat.png'' \<mapsto> Raw ''cat''],
      probes = 0, trace = [], stdout = []\<rparr>"

definition attempt_confirmed :: attempt where
  "attempt_confirmed =
     \<lparr>main_visible = True, fallback_visible = False, note_visible = False,
      popup_visible = (\<lambda>m. False), main_visible_again = False, fallback_visible_again = False,
      race = Some TextSuccess, alt_success_visible = (\<lambda>m. False), error_visible = (\<lambda>m. False)\<rparr>"

definition attempt_unconfirmed :: attempt where
  \<comment> \<open>no success signal, and the first of the platform error phrases is on the page\<close>
  "attempt_unconfirmed =
     \<lparr>main_visible = True, fallback_visible = False, note_visible = False,
      popup_visible = (\<lambda>m. False), main_visible_again = False, fallback_visible_again = False,
      race = None, alt_success_visible = (\<lambda>m. False),
      error_visible = (\<lambda>m. m = hd errorMessages)\<rparr>"

definition cooperating_env :: env where
  "cooperating_env =
     \<lparr>homedir = ''/Users/u'', tmpdir = ''/tmp'', win32 = False,
      date_now = (\<lambda>i. 1700000000000 + i),
      https_get = (\<lambda>url. if url = ''https://example.com/a.jpg''
                          then Response 200 ''OK'' ''jpeg-bytes''
                          else Response 404 ''Not Found'' []),
      cdp_alive = (\<lambda>k. True),
      remote_browser = \<lparr>contexts = [\<lparr>pages = [7, 8], viewport = None\<rparr>]\<rparr>,
      goto_error = None, login_arrival = Some 0, image_tab_visible = True,
      file_input_error = None, content_area_count = 1,
      attempts = (\<lambda>n. attempt_confirmed)\<rparr>"

definition silent_env :: env where
  "silent_env = cooperating_env\<lparr>attempts := (\<lambda>n. attempt_unconfirmed)\<rparr>"

definition config_abc :: PublishConfig where
  "config_abc =
     \<lparr>imagePaths = Some [''data:image/png;base64,AAAA''], imagePath = None,
      title = ''T'', content = ''C'', taskId = Some ''abc''\<rparr>"

definition config_mixed :: PublishConfig where
  "config_mixed =
     \<lparr>imagePaths = Some [''data:image/jpeg;base64,AAAA'', ''/Users/u/cat.png'',
                          ''https://example.com/a.jpg''],
      imagePath = None, title = ''T'', content = ''C'', taskId = None\<rparr>"

definition config_missing_url :: PublishConfig where
  "config_missing_url =
     \<lparr>imagePaths = Some [''https://example.com/missing.png''], imagePath = None,
      title = ''T'', content = ''C'', taskId = Some ''abc''\<rparr>"

subsection \<open>Descriptions of what the page shows\<close>

definition unconfirmed :: "attempt \<Rightarrow> bool" where
  \<comment> \<open>an attempt in which a publish control is found and no success signal is seen:
      the race is lost and none of the alternate success phrases is visible\<close>
  "unconfirmed a =
     ((main_visible a \<or> fallback_visible a \<or> note_visible a)
      \<and> race a = None
      \<and> \<not> scan_texts (alt_success_visible a) additionalSuccessTexts)"

definition with_errors_visible :: "(nat \<Rightarrow> string \<Rightarrow> bool) \<Rightarrow> env \<Rightarrow> env" where
  \<comment> \<open>the same environment, except for which platform error phrases each attempt shows\<close>
  "with_errors_visible v e = e\<lparr>attempts := (\<lambda>n. (attempts e n)\<lparr>error_visible := v n\<rparr>)\<rparr>"

section \<open>Properties\<close>

subsection \<open>Strings and the data-URI pattern\<close>

lemma starts_with_split: "starts_with p s \<Longrightarrow> n = length p \<Longrightarrow> s = p @ drop n s"
  unfolding starts_with_def by (metis append_take_drop_id)

lemma starts_with_append [simp]: "starts_with p (p @ r)"
  by (simp add: starts_with_def)

lemma not_letter_semicolon: "\<not> is_letter CHR '';''"
  by (simp add: is_letter_def)

lemma data_is_not_http: "starts_with ''data:image'' s \<Longrightarrow> \<not> starts_with ''http'' s"
proof
  assume d: "starts_with ''data:image'' s" and h: "starts_with ''http'' s"
  have "s = ''data:image'' @ drop 10 s" by (rule starts_with_split[OF d]) simp
  then obtain r where "s = ''data:image'' @ r" ..
  with h show False by (simp add: starts_with_def)
qed

lemma match_data_image_wf:
  assumes "sub \<noteq> []" "list_all is_letter sub" "payload \<noteq> []" "\<not> has_line_terminator payload"
  shows "match_data_image (''data:image/'' @ sub @ '';base64,'' @ payload) = Some (sub, payload)"
proof -
  have tw: "takeWhile is_letter (sub @ '';base64,'' @ payload) = sub"
    using assms(2) by (simp add: takeWhile_append2 list_all_iff not_letter_semicolon)
  have dw: "dropWhile is_letter (sub @ '';base64,'' @ payload) = '';base64,'' @ payload"
    using assms(2) by (simp add: list_all_iff not_letter_semicolon)
  have d8: "drop 8 ('';base64,'' @ payload) = payload" by simp
  have d11: "drop 11 (''data:image/'' @ sub @ '';base64,'' @ payload) = sub @ '';base64,'' @ payload"
    by simp
  show ?thesis
    unfolding match_data_image_def Let_def d11 tw dw d8
    using assms(1,3,4) starts_with_append[of "''data:image/''"] starts_with_append[of "'';base64,''"]
    by simp
qed

lemma match_data_image_Some:
  assumes "match_data_image s = Some (sub, payload)"
  shows "s = ''data:image/'' @ sub @ '';base64,'' @ payload \<and> sub \<noteq> [] \<and> list_all is_letter sub
         \<and> payload \<noteq> [] \<and> \<not> has_line_terminator payload"
proof -
  let ?r = "drop 11 s"
  let ?r' = "dropWhile is_letter ?r"
  from assms have a: "starts_with ''data:image/'' s"
    and b: "takeWhile is_letter ?r \<noteq> []"
    and c: "starts_with '';base64,'' ?r'"
    and d: "drop 8 ?r' \<noteq> []" "\<not> has_line_terminator (drop 8 ?r')"
    and e: "sub = takeWhile is_letter ?r" "payload = drop 8 ?r'"
    by (auto simp: match_data_image_def Let_def split: if_splits)
  have s1: "s = ''data:image/'' @ ?r" by (rule starts_with_split[OF a]) simp
  have s2: "?r = sub @ ?r'" using e by simp
  have s3: "?r' = '';base64,'' @ payload" unfolding e by (rule starts_with_split[OF c]) simp
  have "list_all is_letter sub" unfolding e list_all_iff by (auto dest: set_takeWhileD)
  with s1 s2 s3 b d e show ?thesis by metis
qed

lemma data_prefix_weaker: "starts_with ''data:image'' (''data:image/'' @ r)"
  by (simp add: starts_with_def)

subsection \<open>Image ingestion\<close>

lemma resolve_image_base64:
  assumes "match_data_image src = Some (sub, payload)"
  shows "resolve_image e tmpDir i src w =
     (let p = path_join tmpDir (''publish_base64_'' @ show_nat (date_now e i) @ ''_'' @ show_nat i
                @ ''.'' @ (if sub = ''jpeg'' then ''jpg'' else sub))
      in (Inr p, w\<lparr>files := (files w)(p \<mapsto> FromBase64 payload)\<rparr>))"
proof -
  have src: "src = ''data:image/'' @ sub @ '';base64,'' @ payload"
    using match_data_image_Some[OF assms] by simp
  have d: "starts_with ''data:image'' src" unfolding src by (rule data_prefix_weaker)
  have h: "\<not> starts_with ''http'' src" by (rule data_is_not_http[OF d])
  show ?thesis
    unfolding resolve_image_def using assms d h by (simp add: Let_def existsSync_def)
qed

lemma downloadImage_frame:
  "trace (snd (downloadImage e url dest w)) = trace w \<and> stdout (snd (downloadImage e url dest w)) = stdout w
   \<and> probes (snd (downloadImage e url dest w)) = probes w"
  by (simp add: downloadImage_def Let_def split: http_outcome.splits)

lemma downloadImage_ok:
  "downloadImage e url dest w = (Inr u, w') \<Longrightarrow>
     \<exists>msg body. https_get e url = Response 200 msg body \<and> w' = w\<lparr>files := (files w)(dest \<mapsto> Raw body)\<rparr>"
  by (cases "https_get e url") (auto simp: downloadImage_def Let_def split: if_splits)

lemma resolve_image_http:
  assumes "starts_with ''http'' src"
  shows "resolve_image e tmpDir i src w =
     (let actualPath = path_join tmpDir (''publish_'' @ show_nat (date_now e i) @ ''_'' @ show_nat i @ ''.png'')
      in case downloadImage e src actualPath w of
           (Inl err, w1) \<Rightarrow>
             (Inl (Error (''Failed to download image '' @ show_nat (i + 1) @ '': '' @ message err)), w1)
         | (Inr u, w1) \<Rightarrow>
             if \<not> existsSync w1 actualPath
             then (Inl (Error (''Image file not found: '' @ actualPath)), w1)
             else (Inr actualPath, w1))"
  unfolding resolve_image_def Let_def using assms
  by (simp split: prod.splits sum.splits)

lemma resolve_image_malformed:
  assumes "starts_with ''data:image'' src" "match_data_image src = None"
  shows "resolve_image e tmpDir i src w =
     (Inl (Error (''Failed to process Base64 image '' @ show_nat (i + 1) @ '': ''
                  @ ''Invalid Base64 image format'')), w)"
  unfolding resolve_image_def Let_def using assms data_is_not_http[OF assms(1)]
  by simp

lemma resolve_image_local:
  assumes "\<not> starts_with ''http'' src" "\<not> starts_with ''data:image'' src"
  shows "resolve_image e tmpDir i src w =
     (if \<not> existsSync w src then (Inl (Error (''Image file not found: '' @ src)), w) else (Inr src, w))"
  unfolding resolve_image_def Let_def using assms
  by simp


lemma resolve_image_frame:
  "trace (snd (resolve_image e tmpDir i src w)) = trace w
   \<and> stdout (snd (resolve_image e tmpDir i src w)) = stdout w
   \<and> probes (snd (resolve_image e tmpDir i src w)) = probes w"
proof (cases "starts_with ''http'' src")
  case True
  let ?p = "path_join tmpDir (''publish_'' @ show_nat (date_now e i) @ ''_'' @ show_nat i @ ''.png'')"
  obtain r w1 where d: "downloadImage e src ?p w = (r, w1)" by (cases "downloadImage e src ?p w")
  from downloadImage_frame[of e src ?p w] d
  have "trace w1 = trace w \<and> stdout w1 = stdout w \<and> probes w1 = probes w" by simp
  then show ?thesis
    unfolding resolve_image_http[OF True] Let_def d by (cases r) simp_all
next
  case False
  show ?thesis
  proof (cases "starts_with ''data:image'' src")
    case data: True
    show ?thesis
    proof (cases "match_data_image src")
      case None
      show ?thesis unfolding resolve_image_malformed[OF data None] by simp
    next
      case (Some m)
      obtain sub payload where "m = (sub, payload)" by (cases m)
      with Some have m: "match_data_image src = Some (sub, payload)" by simp
      show ?thesis unfolding resolve_image_base64[OF m] Let_def by simp
    qed
  next
    case local: False
    show ?thesis unfolding resolve_image_local[OF False local] by simp
  qed
qed

lemma resolve_image_exists:
  assumes "resolve_image e tmpDir i src w = (Inr p, w')"
  shows "existsSync w' p \<and> (\<forall>q. existsSync w q \<longrightarrow> existsSync w' q)"
proof (cases "starts_with ''http'' src")
  case True
  let ?p = "path_join tmpDir (''publish_'' @ show_nat (date_now e i) @ ''_'' @ show_nat i @ ''.png'')"
  obtain r w1 where d: "downloadImage e src ?p w = (r, w1)" by (cases "downloadImage e src ?p w")
  from assms have r: "r = Inr ()" and w1: "w1 = w'" and p: "p = ?p"
    unfolding resolve_image_http[OF True] Let_def d by (cases r; simp split: if_splits)+
  from downloadImage_ok[of e src ?p w "()" w1] d r
  obtain body where "w1 = w\<lparr>files := (files w)(?p \<mapsto> Raw body)\<rparr>" by auto
  with w1 have w': "w' = w\<lparr>files := (files w)(?p \<mapsto> Raw body)\<rparr>" by simp
  show ?thesis unfolding w' p by (simp add: existsSync_def)
next
  case False
  show ?thesis
  proof (cases "starts_with ''data:image'' src")
    case data: True
    show ?thesis
    proof (cases "match_data_image src")
      case None
      with assms show ?thesis unfolding resolve_image_malformed[OF data None] by simp
    next
      case (Some m)
      obtain sub payload where "m = (sub, payload)" by (cases m)
      with Some have m: "match_data_image src = Some (sub, payload)" by simp
      from assms show ?thesis unfolding resolve_image_base64[OF m] Let_def by (auto simp: existsSync_def)
    qed
  next
    case local: False
    from assms show ?thesis unfolding resolve_image_local[OF False local]
      by (simp split: if_splits)
  qed
qed

lemma process_images_frame:
  "trace (snd (process_images e tmpDir srcs i acc w)) = trace w
   \<and> stdout (snd (process_images e tmpDir srcs i acc w)) = stdout w
   \<and> probes (snd (process_images e tmpDir srcs i acc w)) = probes w"
proof (induction e tmpDir srcs i acc w rule: process_images.induct)
  case (1 e tmpDir srcs i acc w)
  show ?case
  proof (cases "i < length srcs")
    case False
    then show ?thesis by (simp add: process_images.simps)
  next
    case True
    obtain r w1 where res: "resolve_image e tmpDir i (srcs ! i) w = (r, w1)"
      by (cases "resolve_image e tmpDir i (srcs ! i) w")
    from resolve_image_frame[of e tmpDir i "srcs ! i" w] res
    have f: "trace w1 = trace w \<and> stdout w1 = stdout w \<and> probes w1 = probes w" by simp
    show ?thesis
    proof (cases r)
      case (Inl err)
      with True res f show ?thesis by (simp add: process_images.simps[of e tmpDir srcs i acc w])
    next
      case (Inr p)
      from "1.IH"[OF True res[symmetric] Inr] f True res Inr
      show ?thesis by (simp add: process_images.simps[of e tmpDir srcs i acc w])
    qed
  qed
qed

lemma process_images_result:
  assumes "process_images e tmpDir srcs i acc w = (Inr ps, w')" "i \<le> length srcs" "length acc = i"
  shows "length ps = length srcs \<and> take i ps = acc
         \<and> (\<forall>j. i \<le> j \<and> j < length srcs \<longrightarrow>
               existsSync w' (ps ! j)
               \<and> (\<exists>wj wj'. resolve_image e tmpDir j (srcs ! j) wj = (Inr (ps ! j), wj')))
         \<and> (\<forall>q. existsSync w q \<longrightarrow> existsSync w' q)"
  using assms
proof (induction e tmpDir srcs i acc w rule: process_images.induct)
  case (1 e tmpDir srcs i acc w)
  show ?case
  proof (cases "i < length srcs")
    case False
    with "1.prems" show ?thesis by (auto simp: process_images.simps[of e tmpDir srcs i acc w])
  next
    case True
    obtain r w1 where res: "resolve_image e tmpDir i (srcs ! i) w = (r, w1)"
      by (cases "resolve_image e tmpDir i (srcs ! i) w")
    from "1.prems"(1) True res obtain p where r: "r = Inr p"
      and rec: "process_images e tmpDir srcs (Suc i) (acc @ [p]) w1 = (Inr ps, w')"
      by (cases r) (simp_all add: process_images.simps[of e tmpDir srcs i acc w])
    from res r have resp: "resolve_image e tmpDir i (srcs ! i) w = (Inr p, w1)" by simp
    have ih: "length ps = length srcs \<and> take (Suc i) ps = acc @ [p]
         \<and> (\<forall>j. Suc i \<le> j \<and> j < length srcs \<longrightarrow>
               existsSync w' (ps ! j)
               \<and> (\<exists>wj wj'. resolve_image e tmpDir j (srcs ! j) wj = (Inr (ps ! j), wj')))
         \<and> (\<forall>q. existsSync w1 q \<longrightarrow> existsSync w' q)"
      using "1.IH"[OF True res[symmetric] r rec] True "1.prems"(3) by simp
    from ih have len: "length ps = length srcs" and tk: "take (Suc i) ps = acc @ [p]" by simp_all
    from tk "1.prems"(3) have psi: "ps ! i = p"
      by (metis lessI nth_append_length nth_take)
    from tk "1.prems"(3) have tki: "take i ps = acc"
      by (metis append_eq_conv_conj take_Suc_conv_app_nth take_all_iff butlast_snoc butlast_take diff_Suc_1 len True less_imp_le_nat Suc_leI)
    note ex = resolve_image_exists[OF resp]
    have here: "existsSync w' (ps ! i) \<and> (\<exists>wj wj'. resolve_image e tmpDir i (srcs ! i) wj = (Inr (ps ! i), wj'))"
      using ex ih psi resp by blast
    have all: "\<forall>j. i \<le> j \<and> j < length srcs \<longrightarrow>
               existsSync w' (ps ! j)
               \<and> (\<exists>wj wj'. resolve_image e tmpDir j (srcs ! j) wj = (Inr (ps ! j), wj'))"
    proof (intro allI impI)
      fix j assume j: "i \<le> j \<and> j < length srcs"
      show "existsSync w' (ps ! j) \<and> (\<exists>wj wj'. resolve_image e tmpDir j (srcs ! j) wj = (Inr (ps ! j), wj'))"
      proof (cases "j = i")
        case True with here show ?thesis by simp
      next
        case False with j have "Suc i \<le> j \<and> j < length srcs" by simp
        with ih show ?thesis by blast
      qed
    qed
    from ex ih have mono: "\<forall>q. existsSync w q \<longrightarrow> existsSync w' q" by blast
    from len tki all mono show ?thesis by blast
  qed
qed

text \<open>
  Claim C8. An inline base64 image resolves to a file whose extension is the declared MIME
  subtype, with \<open>jpeg\<close> turned into \<open>jpg\<close> and every other subtype kept as it is. The
  first half says that a well-formed reference (a subtype of letters, a payload without
  line terminators) does resolve, to that name; the second that whenever a reference
  starting with \<open>data:image\<close> resolves, it has that form and the file has that name.
\<close>

theorem base64_extension:
  "(sub \<noteq> [] \<and> list_all is_letter sub \<and> payload \<noteq> [] \<and> \<not> has_line_terminator payload \<longrightarrow>
      fst (resolve_image e tmpDir i (''data:image/'' @ sub @ '';base64,'' @ payload) w) =
        Inr (path_join tmpDir (''publish_base64_'' @ show_nat (date_now e i) @ ''_'' @ show_nat i
               @ ''.'' @ (if sub = ''jpeg'' then ''jpg'' else sub))))
   \<and> (starts_with ''data:image'' src \<and> resolve_image e tmpDir i src w = (Inr p, w') \<longrightarrow>
        (\<exists>sub payload. src = ''data:image/'' @ sub @ '';base64,'' @ payload
           \<and> p = path_join tmpDir (''publish_base64_'' @ show_nat (date_now e i) @ ''_'' @ show_nat i
                    @ ''.'' @ (if sub = ''jpeg'' then ''jpg'' else sub))
           \<and> files w' p = Some (FromBase64 payload)))"
proof (intro conjI impI)
  assume "sub \<noteq> [] \<and> list_all is_letter sub \<and> payload \<noteq> [] \<and> \<not> has_line_terminator payload"
  then have "match_data_image (''data:image/'' @ sub @ '';base64,'' @ payload) = Some (sub, payload)"
    by (intro match_data_image_wf) simp_all
  then show "fst (resolve_image e tmpDir i (''data:image/'' @ sub @ '';base64,'' @ payload) w) =
        Inr (path_join tmpDir (''publish_base64_'' @ show_nat (date_now e i) @ ''_'' @ show_nat i
               @ ''.'' @ (if sub = ''jpeg'' then ''jpg'' else sub)))"
    by (simp add: resolve_image_base64 Let_def)
next
  assume a: "starts_with ''data:image'' src \<and> resolve_image e tmpDir i src w = (Inr p, w')"
  then have d: "starts_with ''data:image'' src" and r: "resolve_image e tmpDir i src w = (Inr p, w')"
    by simp_all
  have h: "\<not> starts_with ''http'' src" by (rule data_is_not_http[OF d])
  obtain sub payload where m: "match_data_image src = Some (sub, payload)"
    using r d h by (cases "match_data_image src") (auto simp: resolve_image_def)
  have src: "src = ''data:image/'' @ sub @ '';base64,'' @ payload"
    using match_data_image_Some[OF m] by simp
  from r show "\<exists>sub payload. src = ''data:image/'' @ sub @ '';base64,'' @ payload
           \<and> p = path_join tmpDir (''publish_base64_'' @ show_nat (date_now e i) @ ''_'' @ show_nat i
                    @ ''.'' @ (if sub = ''jpeg'' then ''jpg'' else sub))
           \<and> files w' p = Some (FromBase64 payload)"
    unfolding resolve_image_base64[OF m] Let_def using src by (intro exI[of _ sub] exI[of _ payload]) auto
qed

lemmas eval_strings = path_join_def show_nat.simps digit_char_def

theorem base64_extension_witness:
  "fst (resolve_image cooperating_env ''/tmp/auto-tauri-xhs'' 0 ''data:image/jpeg;base64,AAAA'' host_world)
     = Inr ''/tmp/auto-tauri-xhs/publish_base64_1700000000000_0.jpg''
   \<and> fst (resolve_image cooperating_env ''/tmp/auto-tauri-xhs'' 1 ''data:image/png;base64,AAAA'' host_world)
     = Inr ''/tmp/auto-tauri-xhs/publish_base64_1700000000001_1.png''"
proof -
  have "fst (resolve_image cooperating_env ''/tmp/auto-tauri-xhs'' 0 (''data:image/'' @ ''jpeg'' @ '';base64,'' @ ''AAAA'') host_world)
     = Inr (path_join ''/tmp/auto-tauri-xhs'' (''publish_base64_'' @ show_nat (date_now cooperating_env 0) @ ''_'' @ show_nat 0
               @ ''.'' @ (if ''jpeg'' = ''jpeg'' then ''jpg'' else ''jpeg'')))"
    by (rule base64_extension[THEN conjunct1, THEN mp]) (simp add: is_letter_def Let_def)
  moreover have "fst (resolve_image cooperating_env ''/tmp/auto-tauri-xhs'' 1 (''data:image/'' @ ''png'' @ '';base64,'' @ ''AAAA'') host_world)
     = Inr (path_join ''/tmp/auto-tauri-xhs'' (''publish_base64_'' @ show_nat (date_now cooperating_env 1) @ ''_'' @ show_nat 1
               @ ''.'' @ (if ''png'' = ''jpeg'' then ''jpg'' else ''png'')))"
    by (rule base64_extension[THEN conjunct1, THEN mp]) (simp add: is_letter_def Let_def)
  ultimately show ?thesis by (simp add: eval_strings cooperating_env_def)
qed

lemma before_try_ingestion_fails:
  assumes "getChromePath e w = Some c" "select_sources config = Inr srcs"
    "process_images e (path_join (tmpdir e) ''auto-tauri-xhs'') srcs 0 []
       (mkdir_if_missing (path_join (tmpdir e) ''auto-tauri-xhs'') w) = (Inl err, w1)"
  shows "before_try config e w = (Inl err, w1)"
  unfolding before_try_def Let_def using assms by simp

lemma runPublish_throws:
  "before_try config e w = (Inl err, w1) \<Longrightarrow> runPublish config e w = (Inl err, w1)"
  by (simp add: runPublish_def)

lemma mkdir_if_missing_frame:
  "trace (mkdir_if_missing d w) = trace w \<and> stdout (mkdir_if_missing d w) = stdout w
   \<and> probes (mkdir_if_missing d w) = probes w"
  by (simp add: mkdir_if_missing_def)

text \<open>
  Claim C5. For a non-empty list of image references, the ingestion loop either returns a
  list of paths of the same length in which the path at index \<open>j\<close> is the one produced by
  resolving the reference at index \<open>j\<close> (and that file exists when the loop ends), or it
  throws, and then the exception leaves \<open>runPublish\<close> with nothing done to the browser: no
  action in the trace, no liveness probe, nothing on standard output.
\<close>

theorem ingestion_all_or_nothing:
  assumes "srcs \<noteq> []" "imagePaths config = Some srcs" "getChromePath e w = Some c"
  shows "(\<exists>ps w1.
            process_images e (path_join (tmpdir e) ''auto-tauri-xhs'') srcs 0 []
              (mkdir_if_missing (path_join (tmpdir e) ''auto-tauri-xhs'') w) = (Inr ps, w1)
            \<and> length ps = length srcs
            \<and> (\<forall>j. j < length srcs \<longrightarrow>
                  existsSync w1 (ps ! j)
                  \<and> (\<exists>wj wj'. resolve_image e (path_join (tmpdir e) ''auto-tauri-xhs'') j (srcs ! j) wj
                                = (Inr (ps ! j), wj'))))
         \<or> (\<exists>err w1.
            process_images e (path_join (tmpdir e) ''auto-tauri-xhs'') srcs 0 []
              (mkdir_if_missing (path_join (tmpdir e) ''auto-tauri-xhs'') w) = (Inl err, w1)
            \<and> runPublish config e w = (Inl err, w1)
            \<and> trace w1 = trace w \<and> stdout w1 = stdout w \<and> probes w1 = probes w)"
proof -
  let ?tmp = "path_join (tmpdir e) ''auto-tauri-xhs''"
  let ?w0 = "mkdir_if_missing ?tmp w"
  obtain r w1 where run: "process_images e ?tmp srcs 0 [] ?w0 = (r, w1)"
    by (cases "process_images e ?tmp srcs 0 [] ?w0")
  from assms(1,2) have sel: "select_sources config = Inr srcs"
    by (cases srcs) (simp_all add: select_sources_def)
  show ?thesis
  proof (cases r)
    case (Inr ps)
    with run have ok: "process_images e ?tmp srcs 0 [] ?w0 = (Inr ps, w1)" by simp
    from process_images_result[OF ok] have "length ps = length srcs
         \<and> (\<forall>j. j < length srcs \<longrightarrow>
               existsSync w1 (ps ! j)
               \<and> (\<exists>wj wj'. resolve_image e ?tmp j (srcs ! j) wj = (Inr (ps ! j), wj')))"
      by simp
    with ok show ?thesis by blast
  next
    case (Inl err)
    with run have bad: "process_images e ?tmp srcs 0 [] ?w0 = (Inl err, w1)" by simp
    have thrown: "runPublish config e w = (Inl err, w1)"
      by (rule runPublish_throws, rule before_try_ingestion_fails[OF assms(3) sel bad])
    from process_images_frame[of e ?tmp srcs 0 "[]" ?w0] bad mkdir_if_missing_frame[of ?tmp w]
    have "trace w1 = trace w \<and> stdout w1 = stdout w \<and> probes w1 = probes w" by simp
    with bad thrown show ?thesis by blast
  qed
qed

lemmas eval_ingest = resolve_image_def downloadImage_def starts_with_def match_data_image_def
  is_letter_def Let_def existsSync_def path_join_def show_nat.simps digit_char_def
  process_images.simps mkdir_if_missing_def

lemmas eval_host = getChromePath_def CHROME_PATHS_def chrome_mac_def host_world_def cooperating_env_def

theorem ingestion_all_or_nothing_witness:
  "[''data:image/jpeg;base64,AAAA'', ''/Users/u/cat.png'', ''https://example.com/a.jpg''] \<noteq> []
   \<and> imagePaths config_mixed = Some [''data:image/jpeg;base64,AAAA'', ''/Users/u/cat.png'', ''https://example.com/a.jpg'']
   \<and> getChromePath cooperating_env host_world = Some chrome_mac
   \<and> (\<exists>w1. process_images cooperating_env ''/tmp/auto-tauri-xhs''
              [''data:image/jpeg;base64,AAAA'', ''/Users/u/cat.png'', ''https://example.com/a.jpg''] 0 []
              (mkdir_if_missing ''/tmp/auto-tauri-xhs'' host_world)
            = (Inr [''/tmp/auto-tauri-xhs/publish_base64_1700000000000_0.jpg'', ''/Users/u/cat.png'',
                    ''/tmp/auto-tauri-xhs/publish_1700000000002_2.png''], w1))"
proof -
  let ?srcs = "[''data:image/jpeg;base64,AAAA'', ''/Users/u/cat.png'', ''https://example.com/a.jpg'']"
  have h1: "?srcs \<noteq> []" by simp
  have h2: "imagePaths config_mixed = Some ?srcs" by (simp add: config_mixed_def)
  have h3: "getChromePath cooperating_env host_world = Some chrome_mac"
    by (simp add: eval_host existsSync_def)
  have tmp: "path_join (tmpdir cooperating_env) ''auto-tauri-xhs'' = ''/tmp/auto-tauri-xhs''"
    by (simp add: path_join_def cooperating_env_def)
  have ev: "fst (process_images cooperating_env ''/tmp/auto-tauri-xhs'' ?srcs 0 []
              (mkdir_if_missing ''/tmp/auto-tauri-xhs'' host_world))
            = Inr [''/tmp/auto-tauri-xhs/publish_base64_1700000000000_0.jpg'', ''/Users/u/cat.png'',
                    ''/tmp/auto-tauri-xhs/publish_1700000000002_2.png'']"
    by (simp add: eval_ingest eval_host)
  from ingestion_all_or_nothing[OF h1 h2 h3] ev
  have "\<exists>w1. process_images cooperating_env ''/tmp/auto-tauri-xhs'' ?srcs 0 []
              (mkdir_if_missing ''/tmp/auto-tauri-xhs'' host_world)
            = (Inr [''/tmp/auto-tauri-xhs/publish_base64_1700000000000_0.jpg'', ''/Users/u/cat.png'',
                    ''/tmp/auto-tauri-xhs/publish_1700000000002_2.png''], w1)"
    unfolding tmp by auto
  with h1 h2 h3 show ?thesis by blast
qed

text \<open>
  Claim C10. A remote image that downloads is stored as
  \<open>publish_<timestamp>_<index>.png\<close> in the temporary directory: the name ends in \<open>.png\<close>
  whatever the URL says, and the file holds the body of the response, which had status 200.
\<close>

theorem remote_url_saved_as_png:
  assumes "starts_with ''http'' src" "resolve_image e tmpDir i src w = (Inr p, w')"
  shows "p = path_join tmpDir (''publish_'' @ show_nat (date_now e i) @ ''_'' @ show_nat i @ ''.png'')
         \<and> (\<exists>msg body. https_get e src = Response 200 msg body \<and> files w' p = Some (Raw body))"
proof -
  let ?p = "path_join tmpDir (''publish_'' @ show_nat (date_now e i) @ ''_'' @ show_nat i @ ''.png'')"
  obtain r w1 where d: "downloadImage e src ?p w = (r, w1)" by (cases "downloadImage e src ?p w")
  from assms(2) have r: "r = Inr ()" and w1: "w1 = w'" and p: "p = ?p"
    unfolding resolve_image_http[OF assms(1)] Let_def d by (cases r; simp split: if_splits)+
  from downloadImage_ok[of e src ?p w "()" w1] d r
  obtain msg body where "https_get e src = Response 200 msg body"
    "w1 = w\<lparr>files := (files w)(?p \<mapsto> Raw body)\<rparr>" by auto
  with w1 p show ?thesis by auto
qed

theorem remote_url_saved_as_png_witness:
  "starts_with ''http'' ''https://example.com/a.jpg''
   \<and> fst (resolve_image cooperating_env ''/tmp/auto-tauri-xhs'' 2 ''https://example.com/a.jpg'' host_world)
       = Inr ''/tmp/auto-tauri-xhs/publish_1700000000002_2.png''
   \<and> files (snd (resolve_image cooperating_env ''/tmp/auto-tauri-xhs'' 2 ''https://example.com/a.jpg'' host_world))
        ''/tmp/auto-tauri-xhs/publish_1700000000002_2.png'' = Some (Raw ''jpeg-bytes'')"
proof -
  let ?run = "resolve_image cooperating_env ''/tmp/auto-tauri-xhs'' 2 ''https://example.com/a.jpg'' host_world"
  have h1: "starts_with ''http'' ''https://example.com/a.jpg''" by (simp add: starts_with_def)
  have ev: "fst ?run = Inr ''/tmp/auto-tauri-xhs/publish_1700000000002_2.png''"
    by (simp add: eval_ingest eval_host)
  then have h2: "?run = (Inr ''/tmp/auto-tauri-xhs/publish_1700000000002_2.png'', snd ?run)"
    by (metis prod.collapse)
  have g: "https_get cooperating_env ''https://example.com/a.jpg'' = Response 200 ''OK'' ''jpeg-bytes''"
    by (simp add: cooperating_env_def)
  from remote_url_saved_as_png[OF h1 h2] g
  have "files (snd ?run) ''/tmp/auto-tauri-xhs/publish_1700000000002_2.png'' = Some (Raw ''jpeg-bytes'')"
    by auto
  with h1 ev show ?thesis by blast
qed

text \<open>
  The two ways a download fails. A status other than 200 rejects and leaves the file that
  \<open>createWriteStream\<close> made; a transport error rejects after unlinking it.
\<close>

lemma downloadImage_rejected:
  assumes "https_get e url = Response code msg body" "code \<noteq> 200"
  shows "downloadImage e url dest w =
     (Inl (Error (''Failed to download image: '' @ show_nat code @ '' '' @ msg)),
      w\<lparr>files := (files w)(dest \<mapsto> Raw [])\<rparr>)"
  using assms by (simp add: downloadImage_def)

lemma downloadImage_transport_error:
  assumes "https_get e url = TransportError m"
  shows "fst (downloadImage e url dest w) = Inl (Error m)
         \<and> \<not> existsSync (snd (downloadImage e url dest w)) dest"
  using assms by (simp add: downloadImage_def existsSync_def)

text \<open>
  Claim C3. A remote image whose server answers 404 makes the request fail with a download
  error, and the claim adds that no file is left behind. Run on such a server, the program
  throws the download error, and the empty file \<open>publish_1700000000000_0.png\<close> is still in
  the temporary directory afterwards.
\<close>

theorem rejected_download_leaves_file:
  "fst (runPublish config_missing_url cooperating_env host_world)
     = Inl (Error ''Failed to download image 1: Failed to download image: 404 Not Found'')
   \<and> files (snd (runPublish config_missing_url cooperating_env host_world))
        ''/tmp/auto-tauri-xhs/publish_1700000000000_0.png'' = Some (Raw [])"
  by (simp add: runPublish_def before_try_def select_sources_def config_missing_url_def
        eval_ingest eval_host)

subsection \<open>Session manager\<close>

lemma fold_max_upper: "x \<in> set xs \<Longrightarrow> x \<le> fold max xs (m::nat)"
proof (induction xs arbitrary: m)
  case Nil then show ?case by simp
next
  case (Cons a xs)
  have mono: "\<And>k. k \<le> fold max xs k"
  proof -
    fix k :: nat show "k \<le> fold max xs k"
      by (induction xs arbitrary: k) (simp, simp, meson max.cobounded2 order_trans max.cobounded1)
  qed
  show ?case
  proof (cases "x = a")
    case True
    have "a \<le> max a m" by simp
    also have "\<dots> \<le> fold max xs (max a m)" by (rule mono)
    finally show ?thesis using True by simp
  next
    case False
    with Cons.prems have "x \<in> set xs" by simp
    from Cons.IH[OF this] show ?thesis by simp
  qed
qed

lemma fresh_page_is_new:
  "c \<in> set (contexts b) \<Longrightarrow> fresh_page b \<notin> set (pages c)"
proof
  assume c: "c \<in> set (contexts b)" and m: "fresh_page b \<in> set (pages c)"
  from c m have "fresh_page b \<in> set (concat (map pages (contexts b)))" by auto
  from fold_max_upper[OF this, of 0] show False by (simp add: fresh_page_def)
qed

text \<open>
  Claim C7. Page acquisition prefers reuse. With a first context that has a page, that very
  page is returned and the browser is left as it was. With a first context without pages, a
  page that no context held is opened in that context. With no context at all, a context
  with the viewport 1280 by 800 is created, holding one new page.
\<close>

theorem page_reuse_policy:
  "(contexts b = c # cs \<and> pages c = p # ps \<longrightarrow> getOrCreatePage b = (p, b))
   \<and> (contexts b = c # cs \<and> pages c = [] \<longrightarrow>
        getOrCreatePage b = (fresh_page b, b\<lparr>contexts := c\<lparr>pages := [fresh_page b]\<rparr> # cs\<rparr>)
        \<and> (\<forall>c' \<in> set (contexts b). fresh_page b \<notin> set (pages c')))
   \<and> (contexts b = [] \<longrightarrow>
        getOrCreatePage b =
          (fresh_page b, b\<lparr>contexts := [\<lparr>pages = [fresh_page b], viewport = Some (1280, 800)\<rparr>]\<rparr>))"
proof (intro conjI impI ballI)
  assume "contexts b = c # cs \<and> pages c = p # ps"
  then show "getOrCreatePage b = (p, b)" by (simp add: getOrCreatePage_def)
next
  assume "contexts b = c # cs \<and> pages c = []"
  then show "getOrCreatePage b = (fresh_page b, b\<lparr>contexts := c\<lparr>pages := [fresh_page b]\<rparr> # cs\<rparr>)"
    by (simp add: getOrCreatePage_def)
next
  fix c' assume "c' \<in> set (contexts b)"
  then show "fresh_page b \<notin> set (pages c')" by (rule fresh_page_is_new)
next
  assume "contexts b = []"
  then show "getOrCreatePage b =
          (fresh_page b, b\<lparr>contexts := [\<lparr>pages = [fresh_page b], viewport = Some (1280, 800)\<rparr>]\<rparr>)"
    by (simp add: getOrCreatePage_def)
qed

theorem page_reuse_policy_witness:
  "getOrCreatePage \<lparr>contexts = [\<lparr>pages = [7, 8], viewport = None\<rparr>]\<rparr>
     = (7, \<lparr>contexts = [\<lparr>pages = [7, 8], viewport = None\<rparr>]\<rparr>)
   \<and> getOrCreatePage \<lparr>contexts = [\<lparr>pages = [], viewport = None\<rparr>, \<lparr>pages = [4], viewport = None\<rparr>]\<rparr>
     = (5, \<lparr>contexts = [\<lparr>pages = [5], viewport = None\<rparr>, \<lparr>pages = [4], viewport = None\<rparr>]\<rparr>)
   \<and> getOrCreatePage \<lparr>contexts = []\<rparr>
     = (1, \<lparr>contexts = [\<lparr>pages = [1], viewport = Some (1280, 800)\<rparr>]\<rparr>)"
proof -
  let ?c = "\<lparr>pages = [7, 8], viewport = None\<rparr>"
  let ?d = "\<lparr>pages = [], viewport = None\<rparr>"
  let ?d' = "\<lparr>pages = [4], viewport = None\<rparr>"
  have "getOrCreatePage \<lparr>contexts = [?c]\<rparr> = (7, \<lparr>contexts = [?c]\<rparr>)"
    by (rule page_reuse_policy[of "\<lparr>contexts = [?c]\<rparr>" ?c "[]" 7 "[8]", THEN conjunct1, THEN mp]) simp
  moreover have "getOrCreatePage \<lparr>contexts = [?d, ?d']\<rparr>
     = (fresh_page \<lparr>contexts = [?d, ?d']\<rparr>,
        \<lparr>contexts = [?d, ?d']\<rparr>\<lparr>contexts := ?d\<lparr>pages := [fresh_page \<lparr>contexts = [?d, ?d']\<rparr>]\<rparr> # [?d']\<rparr>)"
    using page_reuse_policy[of "\<lparr>contexts = [?d, ?d']\<rparr>" ?d "[?d']" 0 "[]"] by simp
  moreover have "getOrCreatePage \<lparr>contexts = []\<rparr>
     = (fresh_page \<lparr>contexts = []\<rparr>,
        \<lparr>contexts = []\<rparr>\<lparr>contexts := [\<lparr>pages = [fresh_page \<lparr>contexts = []\<rparr>], viewport = Some (1280, 800)\<rparr>]\<rparr>)"
    using page_reuse_policy[of "\<lparr>contexts = []\<rparr>" ?d "[]" 0 "[]"] by simp
  ultimately show ?thesis by (simp add: fresh_page_def)
qed

lemma isCDPAvailable_frame:
  "trace (snd (isCDPAvailable e w)) = trace w \<and> stdout (snd (isCDPAvailable e w)) = stdout w
   \<and> files (snd (isCDPAvailable e w)) = files w"
  by (simp add: isCDPAvailable_def)

text \<open>
  Claim C6. When the first liveness probe succeeds, \<open>connectCDP\<close> attaches at once: the only
  action it adds to the trace is the connection, so no process is spawned, and the file
  system (the profile directory that \<open>launchChrome\<close> would create) is untouched.
\<close>

theorem attach_without_launch:
  assumes "cdp_alive e (probes w)"
  shows "connectCDP e w =
           (Inr (remote_browser e),
            w\<lparr>probes := Suc (probes w), trace := trace w @ [ConnectOverCDP CDP_ENDPOINT]\<rparr>)
         \<and> (\<forall>path args. Spawn path args \<in> set (trace (snd (connectCDP e w))) \<longrightarrow> Spawn path args \<in> set (trace w))
         \<and> files (snd (connectCDP e w)) = files w"
proof -
  have c: "connectCDP e w =
           (Inr (remote_browser e),
            w\<lparr>probes := Suc (probes w), trace := trace w @ [ConnectOverCDP CDP_ENDPOINT]\<rparr>)"
    using assms by (simp add: connectCDP_def isCDPAvailable_def act_def)
  show ?thesis unfolding c by simp
qed

theorem attach_without_launch_witness:
  "cdp_alive cooperating_env (probes host_world)
   \<and> fst (connectCDP cooperating_env host_world) = Inr (remote_browser cooperating_env)
   \<and> trace (snd (connectCDP cooperating_env host_world)) = [ConnectOverCDP ''http://127.0.0.1:9222'']"
proof -
  have h: "cdp_alive cooperating_env (probes host_world)" by (simp add: cooperating_env_def)
  from attach_without_launch[OF h] have
    "connectCDP cooperating_env host_world =
           (Inr (remote_browser cooperating_env),
            host_world\<lparr>probes := Suc (probes host_world),
                        trace := trace host_world @ [ConnectOverCDP CDP_ENDPOINT]\<rparr>)" by simp
  then show ?thesis using h by (simp add: host_world_def CDP_ENDPOINT_def)
qed

lemma wait_for_cdp_frame:
  "trace (snd (wait_for_cdp e k w)) = trace w \<and> stdout (snd (wait_for_cdp e k w)) = stdout w
   \<and> files (snd (wait_for_cdp e k w)) = files w"
proof (induction e k w rule: wait_for_cdp.induct)
  case (1 e k w)
  show ?case
  proof (cases "k < 20")
    case False
    then show ?thesis by (simp add: wait_for_cdp.simps[of e k w])
  next
    case True
    show ?thesis
    proof (cases "cdp_alive e (probes w)")
      case alive: True
      with True show ?thesis by (simp add: wait_for_cdp.simps[of e k w] isCDPAvailable_def)
    next
      case dead: False
      from "1.IH"[OF True, of "(cdp_alive e (probes w), w\<lparr>probes := Suc (probes w)\<rparr>)" "cdp_alive e (probes w)" "w\<lparr>probes := Suc (probes w)\<rparr>"] dead True
      show ?thesis by (simp add: wait_for_cdp.simps[of e k w] isCDPAvailable_def)
    qed
  qed
qed

lemma launchChrome_stdout: "stdout (snd (launchChrome e w)) = stdout w"
proof (cases "getChromePath e w")
  case None
  then show ?thesis by (simp add: launchChrome_def)
next
  case (Some c)
  then show ?thesis
    by (simp add: launchChrome_def Let_def wait_for_cdp_frame act_def mkdir_if_missing_def)
qed

lemma launchChrome_spawns:
  assumes "getChromePath e w = Some c"
  shows "\<exists>args. Spawn c args \<in> set (trace (snd (launchChrome e w)))"
  using assms by (auto simp: launchChrome_def Let_def wait_for_cdp_frame act_def)

lemma connectCDP_stdout: "stdout (snd (connectCDP e w)) = stdout w"
proof (cases "cdp_alive e (probes w)")
  case True
  then show ?thesis by (simp add: connectCDP_def isCDPAvailable_def act_def)
next
  case False
  obtain r w2 where l: "launchChrome e (w\<lparr>probes := Suc (probes w)\<rparr>) = (r, w2)"
    by (cases "launchChrome e (w\<lparr>probes := Suc (probes w)\<rparr>)")
  from launchChrome_stdout[of e "w\<lparr>probes := Suc (probes w)\<rparr>"] l have "stdout w2 = stdout w" by simp
  with False l show ?thesis
    by (cases r) (simp_all add: connectCDP_def isCDPAvailable_def act_def)
qed

lemma launch_when_probe_fails:
  assumes "\<not> cdp_alive e (probes w)" "getChromePath e w = Some c"
  shows "\<exists>args. Spawn c args \<in> set (trace (snd (connectCDP e w)))"
proof -
  let ?w1 = "w\<lparr>probes := Suc (probes w)\<rparr>"
  have "existsSync ?w1 = existsSync w" by (rule ext) (simp add: existsSync_def)
  then have g: "getChromePath e ?w1 = Some c" using assms(2) by (simp add: getChromePath_def)
  obtain r w2 where l: "launchChrome e ?w1 = (r, w2)" by (cases "launchChrome e ?w1")
  from launchChrome_spawns[OF g] l obtain args where "Spawn c args \<in> set (trace w2)" by auto
  with assms(1) l show ?thesis
    by (cases r) (auto simp: connectCDP_def isCDPAvailable_def act_def)
qed

lemma before_try_stdout:
  "stdout (snd (before_try config e w)) = stdout w"
proof (cases "getChromePath e w")
  case None
  then show ?thesis by (simp add: before_try_def)
next
  case (Some c)
  show ?thesis
  proof (cases "select_sources config")
    case (Inl err)
    with Some show ?thesis by (simp add: before_try_def)
  next
    case (Inr srcs)
    let ?tmp = "path_join (tmpdir e) ''auto-tauri-xhs''"
    let ?w0 = "mkdir_if_missing ?tmp w"
    obtain r w1 where p: "process_images e ?tmp srcs 0 [] ?w0 = (r, w1)"
      by (cases "process_images e ?tmp srcs 0 [] ?w0")
    from process_images_frame[of e ?tmp srcs 0 "[]" ?w0] p mkdir_if_missing_frame[of ?tmp w]
    have s1: "stdout w1 = stdout w" by simp
    show ?thesis
    proof (cases r)
      case (Inl err)
      with Some Inr p s1 show ?thesis by (simp add: before_try_def Let_def)
    next
      case ok: (Inr paths)
      obtain r2 w2 where c: "connectCDP e w1 = (r2, w2)" by (cases "connectCDP e w1")
      from connectCDP_stdout[of e w1] c s1 have "stdout w2 = stdout w" by simp
      with Some Inr p ok c show ?thesis
        by (cases r2) (simp_all add: before_try_def Let_def split: prod.splits)
    qed
  qed
qed

subsection \<open>Publish workflow\<close>

lemma waitTime_seconds: "1 \<le> n \<Longrightarrow> waitTime n = int (min (30 + 5 * (n - 1)) 60)"
  by (auto simp: waitTime_def min_def of_nat_diff)

lemma upload_images_trace:
  assumes "upload_images e paths w = (Inr u, w')" "paths \<noteq> []"
  shows "trace w' = trace w @ [SetInputFiles (ByCss sel_file_input) paths,
                               WaitForTimeout (1000 * min (30 + 5 * (length paths - 1)) 60)]
         \<and> stdout w' = stdout w"
proof -
  from assms(2) have n: "1 \<le> length paths" by (cases paths) simp_all
  have "nat (waitTime (length paths) * 1000) = 1000 * min (30 + 5 * (length paths - 1)) 60"
    unfolding waitTime_seconds[OF n] by (simp add: nat_mult_distrib)
  with assms(1) show ?thesis
    by (cases "file_input_error e") (auto simp: upload_images_def Let_def act_def)
qed

lemma upload_images_stdout: "stdout (snd (upload_images e paths w)) = stdout w"
  by (cases "file_input_error e") (simp_all add: upload_images_def Let_def act_def)

lemma fill_form_trace: "\<exists>post. trace (fill_form config e w) = trace w @ post"
  by (simp add: fill_form_def Let_def act_def)

lemma fill_form_stdout: "stdout (fill_form config e w) = stdout w"
  by (simp add: fill_form_def Let_def act_def)

lemma prepare_page_stdout: "stdout (snd (prepare_page config e paths w)) = stdout w"
proof (cases "goto_error e")
  case (Some m)
  then show ?thesis by (simp add: prepare_page_def Let_def act_def)
next
  case None
  let ?w1 = "act (Goto publish_url) w"
  let ?w2 = "if image_tab_visible e
             then act (WaitForTimeout 2000) (act (DispatchClick (ByText txt_upload_tab)) ?w1) else ?w1"
  have s2: "stdout ?w2 = stdout w" by (simp add: act_def)
  obtain r w3 where u: "upload_images e paths ?w2 = (r, w3)" by (cases "upload_images e paths ?w2")
  from upload_images_stdout[of e paths ?w2] u s2 have s3: "stdout w3 = stdout w" by simp
  show ?thesis
  proof (cases "if \<not> on_publish_page e 0 then await_login e 0 else Inr ()")
    case (Inl err)
    with None show ?thesis by (simp add: prepare_page_def Let_def act_def)
  next
    case (Inr v)
    with None u s3 show ?thesis
      by (cases r) (simp_all add: prepare_page_def Let_def fill_form_stdout)
  qed
qed

text \<open>
  Claim C9. In every run that gets through the page preparation with \<open>n \<ge> 1\<close> images, the
  action that follows the upload of the files is a wait of \<open>min (30 + 5 * (n - 1)) 60\<close>
  seconds, given to the page in milliseconds.
\<close>

theorem settling_wait:
  assumes "prepare_page config e paths w = (Inr u, w')" "paths \<noteq> []"
  shows "\<exists>pre post. trace w' =
            pre @ [SetInputFiles (ByCss sel_file_input) paths,
                   WaitForTimeout (1000 * min (30 + 5 * (length paths - 1)) 60)] @ post"
proof -
  let ?w1 = "act (Goto publish_url) w"
  let ?w2 = "if image_tab_visible e
             then act (WaitForTimeout 2000) (act (DispatchClick (ByText txt_upload_tab)) ?w1) else ?w1"
  obtain r w3 where up: "upload_images e paths ?w2 = (r, w3)" by (cases "upload_images e paths ?w2")
  from assms(1) have g: "goto_error e = None"
    by (cases "goto_error e") (simp_all add: prepare_page_def Let_def)
  from assms(1) g obtain v where l: "(if \<not> on_publish_page e 0 then await_login e 0 else Inr ()) = Inr v"
    by (cases "if \<not> on_publish_page e 0 then await_login e 0 else Inr ()")
       (simp_all add: prepare_page_def Let_def)
  from assms(1) g l up have r: "r = Inr ()" and w': "w' = fill_form config e w3"
    by (cases r; simp add: prepare_page_def Let_def)+
  from up r have "upload_images e paths ?w2 = (Inr (), w3)" by simp
  from upload_images_trace[OF this assms(2)]
  have t3: "trace w3 = trace ?w2 @ [SetInputFiles (ByCss sel_file_input) paths,
                               WaitForTimeout (1000 * min (30 + 5 * (length paths - 1)) 60)]" by simp
  from fill_form_trace[of config e w3] obtain post where "trace (fill_form config e w3) = trace w3 @ post" ..
  with t3 w' have "trace w' = trace ?w2 @ [SetInputFiles (ByCss sel_file_input) paths,
                   WaitForTimeout (1000 * min (30 + 5 * (length paths - 1)) 60)] @ post" by simp
  then show ?thesis by blast
qed

lemmas eval_page = prepare_page_def on_publish_page_def upload_images_def waitTime_def fill_form_def
  act_def Let_def

theorem settling_wait_witness:
  "fst (prepare_page config_abc cooperating_env [''a'', ''b'', ''c''] host_world) = Inr ()
   \<and> [''a'', ''b'', ''c''] \<noteq> []
   \<and> (\<exists>pre post. trace (snd (prepare_page config_abc cooperating_env [''a'', ''b'', ''c''] host_world)) =
          pre @ [SetInputFiles (ByCss sel_file_input) [''a'', ''b'', ''c''], WaitForTimeout 40000] @ post)"
proof -
  let ?run = "prepare_page config_abc cooperating_env [''a'', ''b'', ''c''] host_world"
  have ev: "fst ?run = Inr ()" by (simp add: eval_page cooperating_env_def)
  then have h: "?run = (Inr (), snd ?run)" by (metis prod.collapse)
  have ne: "[''a'', ''b'', ''c''] \<noteq> ([] :: string list)" by simp
  from settling_wait[OF h ne] ev show ?thesis by simp
qed

lemma click_publish_stdout: "stdout (snd (click_publish a w)) = stdout w"
  by (simp add: click_publish_def act_def)

lemma click_publish_found:
  "main_visible a \<or> fallback_visible a \<or> note_visible a \<Longrightarrow> fst (click_publish a w) = Inr ()"
  by (auto simp: click_publish_def)

lemma popup_scan_stdout: "stdout (popup_scan a msgs w) = stdout w"
  by (induction msgs) (simp_all add: act_def Let_def)

lemma publish_attempt_stdout: "stdout (snd (publish_attempt e n w)) = stdout w"
proof -
  obtain r w1 where c: "click_publish (attempts e n) w = (r, w1)"
    by (cases "click_publish (attempts e n) w")
  from click_publish_stdout[of "attempts e n" w] c have s1: "stdout w1 = stdout w" by simp
  show ?thesis
  proof (cases r)
    case (Inl err)
    with c s1 show ?thesis by (simp add: publish_attempt_def Let_def)
  next
    case (Inr u)
    with c s1 show ?thesis
      by (cases "race (attempts e n)")
         (simp_all add: publish_attempt_def Let_def popup_scan_stdout act_def)
  qed
qed

lemma publish_attempt_unconfirmed:
  assumes "unconfirmed (attempts e n)"
  shows "fst (publish_attempt e n w) = Inr False"
proof -
  obtain r w1 where c: "click_publish (attempts e n) w = (r, w1)"
    by (cases "click_publish (attempts e n) w")
  from assms have "main_visible (attempts e n) \<or> fallback_visible (attempts e n) \<or> note_visible (attempts e n)"
    by (simp add: unconfirmed_def)
  from click_publish_found[OF this, of w] c have r: "r = Inr ()" by simp
  from assms have "race (attempts e n) = None"
    "\<not> scan_texts (alt_success_visible (attempts e n)) additionalSuccessTexts"
    by (simp_all add: unconfirmed_def)
  with c r show ?thesis by (simp add: publish_attempt_def Let_def)
qed

lemma publish_attempt_confirmed:
  assumes "main_visible (attempts e n) \<or> fallback_visible (attempts e n) \<or> note_visible (attempts e n)"
    "race (attempts e n) = Some s"
  shows "fst (publish_attempt e n w) = Inr True"
proof -
  obtain r w1 where c: "click_publish (attempts e n) w = (r, w1)"
    by (cases "click_publish (attempts e n) w")
  from click_publish_found[OF assms(1), of w] c have r: "r = Inr ()" by simp
  with c assms(2) show ?thesis by (simp add: publish_attempt_def Let_def)
qed

lemma publish_loop_stdout: "stdout (snd (publish_loop e n ok w)) = stdout w"
proof (induction e n ok w rule: publish_loop.induct)
  case (1 e n ok w)
  show ?case
  proof (cases "n \<le> maxRetries \<and> \<not> ok")
    case False
    then show ?thesis by (auto simp: publish_loop.simps[of e n ok w])
  next
    case True
    obtain r w1 where a: "publish_attempt e n w = (r, w1)" by (cases "publish_attempt e n w")
    from publish_attempt_stdout[of e n w] a have s1: "stdout w1 = stdout w" by simp
    show ?thesis
    proof (cases r)
      case (Inl err)
      show ?thesis unfolding publish_loop.simps[of e n ok w] using True a s1 Inl by simp
    next
      case (Inr ok')
      show ?thesis unfolding publish_loop.simps[of e n ok w]
        using "1.IH"[OF True a[symmetric] Inr] True a Inr s1 by simp
    qed
  qed
qed

lemma publish_loop_done: "fst (publish_loop e n True w) = Inr True"
  by (simp add: publish_loop.simps[of e n True w])

lemma publish_loop_unconfirmed:
  assumes "\<forall>k. n \<le> k \<and> k \<le> maxRetries \<longrightarrow> unconfirmed (attempts e k)"
  shows "fst (publish_loop e n False w) = Inr False"
  using assms
proof (induction e n "False" w rule: publish_loop.induct)
  case (1 e n w)
  show ?case
  proof (cases "n \<le> maxRetries")
    case False
    then show ?thesis by (simp add: publish_loop.simps[of e n False w])
  next
    case True
    obtain r w1 where a: "publish_attempt e n w = (r, w1)" by (cases "publish_attempt e n w")
    from "1.prems" True have "unconfirmed (attempts e n)" by simp
    from publish_attempt_unconfirmed[OF this, of w] a have r: "r = Inr False" by simp
    have "\<forall>k. Suc n \<le> k \<and> k \<le> maxRetries \<longrightarrow> unconfirmed (attempts e k)"
      using "1.prems" by simp
    moreover have "n \<le> maxRetries \<and> \<not> False" using True by simp
    ultimately have "fst (publish_loop e (Suc n) False w1) = Inr False"
      using "1.hyps"[OF _ a[symmetric] r] by blast
    with True a r show ?thesis by (simp add: publish_loop.simps[of e n False w])
  qed
qed

lemma scan_texts_iff: "scan_texts visible ts \<longleftrightarrow> (\<exists>t \<in> set ts. visible t)"
  by (induction ts) auto

lemma workflow_stdout: "stdout (snd (workflow config e paths w)) = stdout w"
proof -
  obtain r w1 where p: "prepare_page config e paths w = (r, w1)"
    by (cases "prepare_page config e paths w")
  from prepare_page_stdout[of config e paths w] p have s1: "stdout w1 = stdout w" by simp
  show ?thesis
  proof (cases r)
    case (Inl err)
    with p s1 show ?thesis by (simp add: workflow_def)
  next
    case (Inr u)
    obtain r2 w2 where l: "publish_loop e 1 False w1 = (r2, w2)" by (cases "publish_loop e 1 False w1")
    from publish_loop_stdout[of e 1 False w1] l s1 have "stdout w2 = stdout w" by simp
    with p Inr l show ?thesis by (cases r2) (simp_all add: workflow_def act_def)
  qed
qed

lemma outcome_shape:
  "outcome config status msg =
     JObject ((case taskId config of None \<Rightarrow> [] | Some t \<Rightarrow> [(''taskId'', JString t)])
              @ [(''status'', JString status), (''data'', JObject [(''message'', JString msg)])])"
  by (cases "taskId config") (simp_all add: outcome_def stringify_def)

lemma runPublish_returns:
  assumes "before_try config e w = (Inr paths, w2)" "workflow config e paths w2 = (r, w3)"
  shows "runPublish config e w =
     (Inr (), act BrowserClose (console_log
        (case r of
           Inr publishSuccess \<Rightarrow>
             outcome config ''success'' (if publishSuccess then msg_published else msg_check_manually)
         | Inl err \<Rightarrow> outcome config ''failed'' (message err)) w3))"
  using assms by (cases r) (simp_all add: runPublish_def Let_def)

lemma runPublish_stdout:
  assumes "before_try config e w = (Inr paths, w2)" "workflow config e paths w2 = (r, w3)"
  shows "stdout (snd (runPublish config e w)) = stdout w @
        [case r of
           Inr publishSuccess \<Rightarrow>
             outcome config ''success'' (if publishSuccess then msg_published else msg_check_manually)
         | Inl err \<Rightarrow> outcome config ''failed'' (message err)]"
proof -
  from before_try_stdout[of config e w] assms(1) have "stdout w2 = stdout w" by simp
  moreover from workflow_stdout[of config e paths w2] assms(2) have "stdout w3 = stdout w2" by simp
  ultimately show ?thesis
    unfolding runPublish_returns[OF assms] by (simp add: act_def console_log_def)
qed

lemma workflow_exhausted:
  assumes "prepare_page config e paths w2 = (Inr u, w3)" "\<forall>n \<in> {1, 2, 3}. unconfirmed (attempts e n)"
  shows "fst (publish_loop e 1 False w3) = Inr False \<and> fst (workflow config e paths w2) = Inr False"
proof -
  have "\<forall>k. 1 \<le> k \<and> k \<le> maxRetries \<longrightarrow> unconfirmed (attempts e k)"
  proof (intro allI impI)
    fix k :: nat assume "1 \<le> k \<and> k \<le> maxRetries"
    then have "k \<in> {1, 2, 3}" by (auto simp: maxRetries_def)
    with assms(2) show "unconfirmed (attempts e k)" by blast
  qed
  from publish_loop_unconfirmed[OF this, of w3] have l: "fst (publish_loop e 1 False w3) = Inr False" .
  obtain r2 w4 where p: "publish_loop e 1 False w3 = (r2, w4)" by (cases "publish_loop e 1 False w3")
  with l have "r2 = Inr False" by simp
  with assms(1) p l show ?thesis by (simp add: workflow_def)
qed

lemma run_exhausted:
  assumes "before_try config e w = (Inr paths, w2)" "prepare_page config e paths w2 = (Inr u, w3)"
    "\<forall>n \<in> {1, 2, 3}. unconfirmed (attempts e n)"
  shows "fst (runPublish config e w) = Inr ()
         \<and> stdout (snd (runPublish config e w)) = stdout w @ [outcome config ''success'' msg_check_manually]"
proof -
  obtain r w4 where wf: "workflow config e paths w2 = (r, w4)" by (cases "workflow config e paths w2")
  from workflow_exhausted[OF assms(2,3)] wf have r: "r = Inr False" by simp
  from runPublish_returns[OF assms(1) wf] runPublish_stdout[OF assms(1) wf] r
  show ?thesis by simp
qed

lemma run_confirmed_at_once:
  assumes "before_try config e w = (Inr paths, w2)" "prepare_page config e paths w2 = (Inr u, w3)"
    "main_visible (attempts e 1) \<or> fallback_visible (attempts e 1) \<or> note_visible (attempts e 1)"
    "race (attempts e 1) = Some s"
  shows "fst (runPublish config e w) = Inr ()
         \<and> stdout (snd (runPublish config e w)) = stdout w @ [outcome config ''success'' msg_published]"
proof -
  obtain r1 w4 where a: "publish_attempt e 1 w3 = (r1, w4)" by (cases "publish_attempt e 1 w3")
  from publish_attempt_confirmed[OF assms(3,4), of w3] a have r1: "r1 = Inr True" by simp
  obtain r2 w5 where l2: "publish_loop e (Suc 1) True w4 = (r2, w5)"
    by (cases "publish_loop e (Suc 1) True w4")
  from publish_loop_done[of e "Suc 1" w4] l2 have r2: "r2 = Inr True" by simp
  have "publish_loop e 1 False w3 = (Inr True, w5)"
    unfolding publish_loop.simps[of e 1 False w3] using a r1 l2 r2 by (simp add: maxRetries_def)
  with assms(2) have wf: "workflow config e paths w2 = (Inr True, act (WaitForTimeout 2000) w5)"
    by (simp add: workflow_def)
  from runPublish_returns[OF assms(1) wf] runPublish_stdout[OF assms(1) wf]
  show ?thesis by simp
qed

lemma runPublish_thrown_stdout:
  assumes "runPublish config e w = (Inl err, w')"
  shows "stdout w' = stdout w"
proof -
  obtain r w2 where b: "before_try config e w = (r, w2)" by (cases "before_try config e w")
  from before_try_stdout[of config e w] b have s: "stdout w2 = stdout w" by simp
  from assms b s show ?thesis
    by (cases r) (auto simp: runPublish_def Let_def split: prod.splits)
qed

lemma runPublish_returned_stdout:
  assumes "runPublish config e w = (Inr u, w')"
  shows "\<exists>status msg. (status = ''success'' \<or> status = ''failed'')
           \<and> stdout w' = stdout w @ [outcome config status msg]"
proof -
  obtain r w2 where b: "before_try config e w = (r, w2)" by (cases "before_try config e w")
  from assms b obtain paths where r: "r = Inr paths" by (cases r) (simp_all add: runPublish_def)
  obtain r3 w3 where wf: "workflow config e paths w2 = (r3, w3)" by (cases "workflow config e paths w2")
  from b r have b': "before_try config e w = (Inr paths, w2)" by simp
  from runPublish_stdout[OF b' wf] assms
  have s: "stdout w' = stdout w @
        [case r3 of
           Inr publishSuccess \<Rightarrow>
             outcome config ''success'' (if publishSuccess then msg_published else msg_check_manually)
         | Inl err \<Rightarrow> outcome config ''failed'' (message err)]" by simp
  show ?thesis
  proof (cases r3)
    case (Inl err)
    with s show ?thesis by auto
  next
    case (Inr ok)
    with s show ?thesis by auto
  qed
qed

text \<open>
  What is printed when the exception leaves \<open>runPublish\<close>: nothing by \<open>runPublish\<close> itself, and
  by \<open>main\<close>, for a configuration read from standard input, one object with an \<open>error\<close>
  property. A configuration without \<open>imagePaths\<close> and \<open>imagePath\<close> ends this way.
\<close>

lemma main_stdin_error_variant:
  assumes "runPublish config e w = (Inl err, w1)"
  shows "main_stdin config e w =
     (1, w1\<lparr>stdout := stdout w @
           [JObject ((case taskId config of None \<Rightarrow> [] | Some t \<Rightarrow> [(''taskId'', JString t)])
                     @ [(''status'', JString ''failed''), (''error'', JString (message err))])]\<rparr>)"
  using assms runPublish_thrown_stdout[OF assms]
  by (cases "taskId config") (simp_all add: main_stdin_def console_log_def stringify_def)

lemma no_image_field:
  assumes "imagePaths config = None" "imagePath config = None" "getChromePath e w = Some c"
  shows "runPublish config e w =
     (Inl (Error ''Image path is required for XHS publish. Please provide imagePaths or imagePath.''), w)"
  using assms by (simp add: runPublish_def before_try_def select_sources_def)

text \<open>
  Claim C1, as amended. The configuration has no \<open>correlationId\<close>: the identifier the program
  reads and prints is \<open>taskId\<close>. With that name the claim holds. A run of \<open>runPublish\<close> that
  returns has appended exactly one object to standard output, of the form
  \<open>{ taskId, status, data: { message } }\<close> with status \<open>success\<close> or \<open>failed\<close>, the \<open>taskId\<close>
  being left out when the configuration has none. When the configuration carries the
  \<open>taskId\<close> \<open>abc\<close>, the run reaches the retry loop, and the page shows a publish control and
  wins the success race on the first attempt, the object is
  \<open>{ taskId: "abc", status: "success", data: { message: msg_published } }\<close>. A run started
  from a line of standard input prints exactly one object in every case, the one with an
  \<open>error\<close> property when the exception left \<open>runPublish\<close>.
\<close>

theorem one_outcome_per_completed_run:
  "(runPublish config e w = (Inr u, w') \<longrightarrow>
      (\<exists>status msg. (status = ''success'' \<or> status = ''failed'')
         \<and> stdout w' = stdout w @
              [JObject ((case taskId config of None \<Rightarrow> [] | Some t \<Rightarrow> [(''taskId'', JString t)])
                        @ [(''status'', JString status),
                           (''data'', JObject [(''message'', JString msg)])])]))
   \<and> (taskId config = Some ''abc'' \<and> before_try config e w = (Inr paths, w2)
        \<and> prepare_page config e paths w2 = (Inr u', w3)
        \<and> (main_visible (attempts e 1) \<or> fallback_visible (attempts e 1) \<or> note_visible (attempts e 1))
        \<and> race (attempts e 1) = Some s \<longrightarrow>
        fst (runPublish config e w) = Inr ()
        \<and> stdout (snd (runPublish config e w)) = stdout w @
              [JObject [(''taskId'', JString ''abc''), (''status'', JString ''success''),
                        (''data'', JObject [(''message'', JString msg_published)])]])
   \<and> (\<exists>obj. stdout (snd (main_stdin config e w)) = stdout w @ [obj])"
proof (intro conjI impI)
  assume "runPublish config e w = (Inr u, w')"
  from runPublish_returned_stdout[OF this]
  show "\<exists>status msg. (status = ''success'' \<or> status = ''failed'')
         \<and> stdout w' = stdout w @
              [JObject ((case taskId config of None \<Rightarrow> [] | Some t \<Rightarrow> [(''taskId'', JString t)])
                        @ [(''status'', JString status),
                           (''data'', JObject [(''message'', JString msg)])])]"
    unfolding outcome_shape .
next
  assume a: "taskId config = Some ''abc'' \<and> before_try config e w = (Inr paths, w2)
        \<and> prepare_page config e paths w2 = (Inr u', w3)
        \<and> (main_visible (attempts e 1) \<or> fallback_visible (attempts e 1) \<or> note_visible (attempts e 1))
        \<and> race (attempts e 1) = Some s"
  then have b: "before_try config e w = (Inr paths, w2)"
    and p: "prepare_page config e paths w2 = (Inr u', w3)"
    and c: "main_visible (attempts e 1) \<or> fallback_visible (attempts e 1) \<or> note_visible (attempts e 1)"
    and r: "race (attempts e 1) = Some s" and t: "taskId config = Some ''abc''" by simp_all
  from run_confirmed_at_once[OF b p c r]
  show "fst (runPublish config e w) = Inr ()"
    and "stdout (snd (runPublish config e w)) = stdout w @
              [JObject [(''taskId'', JString ''abc''), (''status'', JString ''success''),
                        (''data'', JObject [(''message'', JString msg_published)])]]"
    unfolding outcome_shape t by simp_all
next
  obtain r w1 where run: "runPublish config e w = (r, w1)" by (cases "runPublish config e w")
  show "\<exists>obj. stdout (snd (main_stdin config e w)) = stdout w @ [obj]"
  proof (cases r)
    case (Inl err)
    with run runPublish_thrown_stdout[of config e w err w1]
    show ?thesis by (simp add: main_stdin_def console_log_def)
  next
    case (Inr u)
    with run runPublish_returned_stdout[of config e w u w1]
    show ?thesis by (auto simp: main_stdin_def)
  qed
qed

lemmas eval_run = runPublish_def before_try_def select_sources_def connectCDP_def isCDPAvailable_def
  getOrCreatePage_def workflow_def publish_loop.simps publish_attempt_def click_publish_def
  uploadPopupMessages_def additionalSuccessTexts_def errorMessages_def maxRetries_def
  console_log_def outcome_def stringify_def

lemma e2e_before_try:
  "fst (before_try config_abc cooperating_env host_world)
     = Inr [''/tmp/auto-tauri-xhs/publish_base64_1700000000000_0.png'']"
  by (simp add: before_try_def select_sources_def connectCDP_def isCDPAvailable_def
        getOrCreatePage_def act_def config_abc_def eval_ingest eval_host)

lemma e2e_prepare_page:
  "fst (prepare_page config_abc cooperating_env paths w) = Inr ()"
  by (simp add: eval_page cooperating_env_def)

theorem one_outcome_per_completed_run_witness:
  "fst (runPublish config_abc cooperating_env host_world) = Inr ()
   \<and> stdout (snd (runPublish config_abc cooperating_env host_world)) =
       [JObject [(''taskId'', JString ''abc''), (''status'', JString ''success''),
                 (''data'', JObject [(''message'', JString msg_published)])]]"
proof -
  let ?paths = "[''/tmp/auto-tauri-xhs/publish_base64_1700000000000_0.png'']"
  let ?w2 = "snd (before_try config_abc cooperating_env host_world)"
  let ?w3 = "snd (prepare_page config_abc cooperating_env ?paths ?w2)"
  have b: "before_try config_abc cooperating_env host_world = (Inr ?paths, ?w2)"
    using e2e_before_try by (metis prod.collapse)
  have p: "prepare_page config_abc cooperating_env ?paths ?w2 = (Inr (), ?w3)"
    using e2e_prepare_page[of ?paths ?w2] by (metis prod.collapse)
  have h: "taskId config_abc = Some ''abc'' \<and> before_try config_abc cooperating_env host_world = (Inr ?paths, ?w2)
        \<and> prepare_page config_abc cooperating_env ?paths ?w2 = (Inr (), ?w3)
        \<and> (main_visible (attempts cooperating_env 1) \<or> fallback_visible (attempts cooperating_env 1)
            \<or> note_visible (attempts cooperating_env 1))
        \<and> race (attempts cooperating_env 1) = Some TextSuccess"
    using b p by (simp add: config_abc_def cooperating_env_def attempt_confirmed_def)
  from one_outcome_per_completed_run[THEN conjunct2, THEN conjunct1, THEN mp, OF h]
  show ?thesis by (simp add: host_world_def)
qed

text \<open>
  Claim C1 as stated fails: for the configuration with identifier \<open>abc\<close>, one inline PNG, the
  title \<open>T\<close> and the content \<open>C\<close>, on a cooperating page, the object printed is not the one
  with the property \<open>correlationId\<close>.
\<close>

theorem correlation_id_counterexample:
  "stdout (snd (runPublish config_abc cooperating_env host_world)) \<noteq>
       [JObject [(''correlationId'', JString ''abc''), (''status'', JString ''success''),
                 (''data'', JObject [(''message'', JString msg_published)])]]"
  by (simp add: eval_run eval_page eval_ingest eval_host config_abc_def attempt_confirmed_def)

text \<open>
  Claim C2. A run that reaches the retry loop and in which each of the three attempts finds
  a publish control but no success signal goes through the whole loop with
  \<open>publishSuccess\<close> still false, returns normally, and prints one object with status
  \<open>success\<close> and the message that asks for a manual check.
\<close>

theorem exhausted_attempts_report_success:
  assumes "before_try config e w = (Inr paths, w2)"
    and "prepare_page config e paths w2 = (Inr u, w3)"
    and "\<forall>n \<in> {1, 2, 3}. unconfirmed (attempts e n)"
  shows "fst (publish_loop e 1 False w3) = Inr False
         \<and> fst (runPublish config e w) = Inr ()
         \<and> stdout (snd (runPublish config e w)) = stdout w @
              [JObject ((case taskId config of None \<Rightarrow> [] | Some t \<Rightarrow> [(''taskId'', JString t)])
                        @ [(''status'', JString ''success''),
                           (''data'', JObject [(''message'', JString msg_check_manually)])])]"
  using workflow_exhausted[OF assms(2,3)] run_exhausted[OF assms] unfolding outcome_shape by simp

lemma silent_before_try:
  "fst (before_try config_abc silent_env host_world)
     = Inr [''/tmp/auto-tauri-xhs/publish_base64_1700000000000_0.png'']"
  by (simp add: before_try_def select_sources_def connectCDP_def isCDPAvailable_def
        getOrCreatePage_def act_def config_abc_def silent_env_def eval_ingest eval_host)

lemma silent_prepare_page:
  "fst (prepare_page config_abc silent_env paths w) = Inr ()"
  by (simp add: eval_page silent_env_def cooperating_env_def)

lemma silent_unconfirmed: "unconfirmed (attempts silent_env n)"
  by (simp add: unconfirmed_def silent_env_def attempt_unconfirmed_def additionalSuccessTexts_def)

theorem exhausted_attempts_report_success_witness:
  "unconfirmed (attempts silent_env 1) \<and> unconfirmed (attempts silent_env 2)
   \<and> unconfirmed (attempts silent_env 3)
   \<and> fst (runPublish config_abc silent_env host_world) = Inr ()
   \<and> stdout (snd (runPublish config_abc silent_env host_world)) =
       [JObject [(''taskId'', JString ''abc''), (''status'', JString ''success''),
                 (''data'', JObject [(''message'', JString msg_check_manually)])]]"
proof -
  let ?paths = "[''/tmp/auto-tauri-xhs/publish_base64_1700000000000_0.png'']"
  let ?w2 = "snd (before_try config_abc silent_env host_world)"
  let ?w3 = "snd (prepare_page config_abc silent_env ?paths ?w2)"
  have b: "before_try config_abc silent_env host_world = (Inr ?paths, ?w2)"
    using silent_before_try by (metis prod.collapse)
  have p: "prepare_page config_abc silent_env ?paths ?w2 = (Inr (), ?w3)"
    using silent_prepare_page[of ?paths ?w2] by (metis prod.collapse)
  have a: "\<forall>n \<in> {1, 2, 3}. unconfirmed (attempts silent_env n)"
    using silent_unconfirmed by blast
  from exhausted_attempts_report_success[OF b p a] silent_unconfirmed
  show ?thesis by (simp add: host_world_def config_abc_def)
qed

subsection \<open>The error scan has no effect\<close>

lemma with_errors_visible_fields [simp]:
  "homedir (with_errors_visible v e) = homedir e"
  "tmpdir (with_errors_visible v e) = tmpdir e"
  "win32 (with_errors_visible v e) = win32 e"
  "date_now (with_errors_visible v e) = date_now e"
  "https_get (with_errors_visible v e) = https_get e"
  "cdp_alive (with_errors_visible v e) = cdp_alive e"
  "remote_browser (with_errors_visible v e) = remote_browser e"
  "goto_error (with_errors_visible v e) = goto_error e"
  "login_arrival (with_errors_visible v e) = login_arrival e"
  "image_tab_visible (with_errors_visible v e) = image_tab_visible e"
  "file_input_error (with_errors_visible v e) = file_input_error e"
  "content_area_count (with_errors_visible v e) = content_area_count e"
  "attempts (with_errors_visible v e) n = (attempts e n)\<lparr>error_visible := v n\<rparr>"
  by (simp_all add: with_errors_visible_def)

lemma resolve_image_errors_visible:
  "resolve_image (with_errors_visible v e) = resolve_image e"
  by (intro ext) (simp add: resolve_image_def downloadImage_def Let_def cong: option.case_cong sum.case_cong prod.case_cong if_cong http_outcome.case_cong)

lemma process_images_errors_visible:
  "process_images (with_errors_visible v e) tmpDir srcs i acc w = process_images e tmpDir srcs i acc w"
proof (induction e tmpDir srcs i acc w rule: process_images.induct)
  case (1 e tmpDir srcs i acc w)
  show ?case
  proof (cases "i < length srcs")
    case False
    then show ?thesis
      by (simp add: process_images.simps[of e tmpDir srcs i acc w]
            process_images.simps[of "with_errors_visible v e" tmpDir srcs i acc w])
  next
    case True
    obtain r w1 where res: "resolve_image e tmpDir i (srcs ! i) w = (r, w1)"
      by (cases "resolve_image e tmpDir i (srcs ! i) w")
    show ?thesis
    proof (cases r)
      case (Inl err)
      with True res show ?thesis
        by (simp add: process_images.simps[of e tmpDir srcs i acc w]
              process_images.simps[of "with_errors_visible v e" tmpDir srcs i acc w]
              resolve_image_errors_visible)
    next
      case (Inr p)
      from "1.IH"[OF True res[symmetric] Inr] True res Inr show ?thesis
        by (simp add: process_images.simps[of e tmpDir srcs i acc w]
              process_images.simps[of "with_errors_visible v e" tmpDir srcs i acc w]
              resolve_image_errors_visible)
    qed
  qed
qed

lemma wait_for_cdp_errors_visible:
  "wait_for_cdp (with_errors_visible v e) k w = wait_for_cdp e k w"
proof (induction e k w rule: wait_for_cdp.induct)
  case (1 e k w)
  show ?case
  proof (cases "k < 20")
    case False
    then show ?thesis
      by (simp add: wait_for_cdp.simps[of e k w] wait_for_cdp.simps[of "with_errors_visible v e" k w])
  next
    case True
    from "1.IH"[OF True, of "(cdp_alive e (probes w), w\<lparr>probes := Suc (probes w)\<rparr>)"
                  "cdp_alive e (probes w)" "w\<lparr>probes := Suc (probes w)\<rparr>"] True
    show ?thesis
      by (simp add: wait_for_cdp.simps[of e k w] wait_for_cdp.simps[of "with_errors_visible v e" k w]
            isCDPAvailable_def)
  qed
qed

lemma getChromePath_errors_visible:
  "getChromePath (with_errors_visible v e) w = getChromePath e w"
  by (simp add: getChromePath_def CHROME_PATHS_def)

lemma connectCDP_errors_visible:
  "connectCDP (with_errors_visible v e) w = connectCDP e w"
  by (simp add: connectCDP_def isCDPAvailable_def launchChrome_def USER_DATA_DIR_def Let_def
        getChromePath_errors_visible wait_for_cdp_errors_visible cong: option.case_cong sum.case_cong prod.case_cong if_cong http_outcome.case_cong)

lemma before_try_errors_visible:
  "before_try config (with_errors_visible v e) w = before_try config e w"
  by (simp add: before_try_def getChromePath_errors_visible process_images_errors_visible
        connectCDP_errors_visible Let_def cong: option.case_cong sum.case_cong prod.case_cong if_cong http_outcome.case_cong)

lemma await_login_errors_visible:
  "await_login (with_errors_visible v e) t = await_login e t"
proof (induction e t rule: await_login.induct)
  case (1 e t)
  show ?case
  proof (cases "\<not> on_publish_page e t \<and> \<not> t > 120000")
    case False
    then show ?thesis
      by (auto simp: await_login.simps[of e t] await_login.simps[of "with_errors_visible v e" t]
            on_publish_page_def)
  next
    case True
    with "1.IH" have "await_login (with_errors_visible v e) (after_wait_for_url e t)
                      = await_login e (after_wait_for_url e t)" by simp
    with True show ?thesis
      by (simp add: await_login.simps[of e t] await_login.simps[of "with_errors_visible v e" t]
            on_publish_page_def after_wait_for_url_def)
  qed
qed

lemma prepare_page_errors_visible:
  "prepare_page config (with_errors_visible v e) paths w = prepare_page config e paths w"
  by (simp add: prepare_page_def on_publish_page_def await_login_errors_visible
        upload_images_def fill_form_def Let_def cong: option.case_cong sum.case_cong prod.case_cong if_cong http_outcome.case_cong)

lemma publish_attempt_errors_visible:
  "publish_attempt (with_errors_visible v e) n w = publish_attempt e n w"
proof -
  have p: "popup_scan ((attempts e n)\<lparr>error_visible := v n\<rparr>) msgs w' = popup_scan (attempts e n) msgs w'"
    for msgs w' by (induction msgs) (simp_all add: Let_def cong: if_cong)
  show ?thesis
    by (simp add: publish_attempt_def click_publish_def Let_def p cong: option.case_cong sum.case_cong prod.case_cong if_cong http_outcome.case_cong)
qed

lemma publish_loop_errors_visible:
  "publish_loop (with_errors_visible v e) n ok w = publish_loop e n ok w"
proof (induction e n ok w rule: publish_loop.induct)
  case (1 e n ok w)
  show ?case
  proof (cases "n \<le> maxRetries \<and> \<not> ok")
    case False
    then show ?thesis
      unfolding publish_loop.simps[of e n ok w] publish_loop.simps[of "with_errors_visible v e" n ok w]
      by auto
  next
    case True
    obtain r w1 where a: "publish_attempt e n w = (r, w1)" by (cases "publish_attempt e n w")
    show ?thesis
    proof (cases r)
      case (Inl err)
      show ?thesis
        unfolding publish_loop.simps[of e n ok w] publish_loop.simps[of "with_errors_visible v e" n ok w]
        using True a Inl by (simp add: publish_attempt_errors_visible)
    next
      case (Inr ok')
      show ?thesis
        unfolding publish_loop.simps[of e n ok w] publish_loop.simps[of "with_errors_visible v e" n ok w]
        using "1.IH"[OF True a[symmetric] Inr] True a Inr by (simp add: publish_attempt_errors_visible)
    qed
  qed
qed

lemma workflow_errors_visible:
  "workflow config (with_errors_visible v e) paths w = workflow config e paths w"
  by (simp add: workflow_def prepare_page_errors_visible publish_loop_errors_visible cong: option.case_cong sum.case_cong prod.case_cong if_cong http_outcome.case_cong)

text \<open>
  Claim C4. When an attempt sees no success signal, the page is scanned for the phrases of
  \<open>errorMessages\<close>, and the result of that scan is never used. First, changing which error
  phrases the page shows, in any attempt, changes nothing of a run: not its result, not its
  trace, not what it prints. Second, in a run whose three attempts all go unconfirmed and
  whose last attempt shows one of the error phrases, the scan does detect it, and the run
  still returns and prints status \<open>success\<close> with the message asking for a manual check.
\<close>

theorem error_scan_never_changes_outcome:
  "runPublish config (with_errors_visible v e) w = runPublish config e w
   \<and> (before_try config e w = (Inr paths, w2) \<and> prepare_page config e paths w2 = (Inr u, w3)
        \<and> (\<forall>n \<in> {1, 2, 3}. unconfirmed (attempts e n))
        \<and> m \<in> set errorMessages \<and> error_visible (attempts e 3) m \<longrightarrow>
        scan_texts (error_visible (attempts e 3)) errorMessages
        \<and> fst (runPublish config e w) = Inr ()
        \<and> stdout (snd (runPublish config e w)) =
            stdout w @ [outcome config ''success'' msg_check_manually])"
proof (intro conjI impI)
  show "runPublish config (with_errors_visible v e) w = runPublish config e w"
    by (simp add: runPublish_def before_try_errors_visible workflow_errors_visible Let_def cong: option.case_cong sum.case_cong prod.case_cong if_cong http_outcome.case_cong)
next
  assume a: "before_try config e w = (Inr paths, w2) \<and> prepare_page config e paths w2 = (Inr u, w3)
        \<and> (\<forall>n \<in> {1, 2, 3}. unconfirmed (attempts e n))
        \<and> m \<in> set errorMessages \<and> error_visible (attempts e 3) m"
  then show "scan_texts (error_visible (attempts e 3)) errorMessages"
    unfolding scan_texts_iff by blast
  from a have b: "before_try config e w = (Inr paths, w2)"
    and p: "prepare_page config e paths w2 = (Inr u, w3)"
    and x: "\<forall>n \<in> {1, 2, 3}. unconfirmed (attempts e n)" by simp_all
  from run_exhausted[OF b p x]
  show "fst (runPublish config e w) = Inr ()"
    and "stdout (snd (runPublish config e w)) = stdout w @ [outcome config ''success'' msg_check_manually]"
    by simp_all
qed

theorem error_scan_never_changes_outcome_witness:
  "hd errorMessages \<in> set errorMessages
   \<and> error_visible (attempts silent_env 3) (hd errorMessages)
   \<and> scan_texts (error_visible (attempts silent_env 3)) errorMessages
   \<and> stdout (snd (runPublish config_abc silent_env host_world)) =
       [JObject [(''taskId'', JString ''abc''), (''status'', JString ''success''),
                 (''data'', JObject [(''message'', JString msg_check_manually)])]]"
proof -
  let ?paths = "[''/tmp/auto-tauri-xhs/publish_base64_1700000000000_0.png'']"
  let ?w2 = "snd (before_try config_abc silent_env host_world)"
  let ?w3 = "snd (prepare_page config_abc silent_env ?paths ?w2)"
  have b: "before_try config_abc silent_env host_world = (Inr ?paths, ?w2)"
    using silent_before_try by (metis prod.collapse)
  have p: "prepare_page config_abc silent_env ?paths ?w2 = (Inr (), ?w3)"
    using silent_prepare_page[of ?paths ?w2] by (metis prod.collapse)
  have a: "\<forall>n \<in> {1, 2, 3}. unconfirmed (attempts silent_env n)"
    using silent_unconfirmed by blast
  have m: "hd errorMessages \<in> set errorMessages" by (simp add: errorMessages_def)
  have v: "error_visible (attempts silent_env 3) (hd errorMessages)"
    by (simp add: silent_env_def attempt_unconfirmed_def)
  have h: "before_try config_abc silent_env host_world = (Inr ?paths, ?w2)
        \<and> prepare_page config_abc silent_env ?paths ?w2 = (Inr (), ?w3)
        \<and> (\<forall>n \<in> {1, 2, 3}. unconfirmed (attempts silent_env n))
        \<and> hd errorMessages \<in> set errorMessages \<and> error_visible (attempts silent_env 3) (hd errorMessages)"
    using b p a m v by blast
  from error_scan_never_changes_outcome[THEN conjunct2, THEN mp, OF h] m v
  show ?thesis by (simp add: host_world_def outcome_shape config_abc_def)
qed

end
